theory Spec2Isabelle
  imports Main "HOL-Library.Word"
begin

section \<open>Strings of the JavaScript runtime\<close>

text \<open>
  Identifiers, URLs and feed attributes are JavaScript strings. They are modelled as
  \<^typ>\<open>string\<close>, a list of 8-bit code units read as ASCII / Latin-1 (code units
  \<open>0..255\<close>). On that range the runtime functions the sources call are written
  out: \<^verbatim>\<open>toLowerCase\<close>, the regular-expression classes \<^verbatim>\<open>\w\<close>, \<^verbatim>\<open>\d\<close>,
  \<^verbatim>\<open>\s\<close>, \<^verbatim>\<open>trim\<close>, \<^verbatim>\<open>includes\<close>, \<^verbatim>\<open>startsWith\<close>,
  \<^verbatim>\<open>endsWith\<close>, \<^verbatim>\<open>split\<close> and \<^verbatim>\<open>replace\<close> with a string pattern.
\<close>

definition code :: "char \<Rightarrow> nat" where
  "code c = of_char c"

text \<open>\<^verbatim>\<open>String.prototype.toLowerCase\<close> on one code unit: \<open>A..Z\<close> and the Latin-1
  capitals \<open>0xC0..0xDE\<close> (without the multiplication sign \<open>0xD7\<close>) move up by 32.\<close>

definition toLowerCaseChar :: "char \<Rightarrow> char" where
  "toLowerCaseChar c =
     (if (65 \<le> code c \<and> code c \<le> 90) \<or> (192 \<le> code c \<and> code c \<le> 222 \<and> code c \<noteq> 215)
      then char_of (code c + 32) else c)"

definition toLowerCase :: "string \<Rightarrow> string" where
  "toLowerCase s = map toLowerCaseChar s"

text \<open>The class \<^verbatim>\<open>\w\<close> (no \<^verbatim>\<open>u\<close> or \<^verbatim>\<open>i\<close> flag): \<open>[A-Za-z0-9_]\<close>.\<close>

definition isWordChar :: "char \<Rightarrow> bool" where
  "isWordChar c =
     ((48 \<le> code c \<and> code c \<le> 57) \<or> (65 \<le> code c \<and> code c \<le> 90) \<or> code c = 95
      \<or> (97 \<le> code c \<and> code c \<le> 122))"

text \<open>The class \<^verbatim>\<open>\d\<close>: \<open>[0-9]\<close>.\<close>

definition isDigit :: "char \<Rightarrow> bool" where
  "isDigit c = (48 \<le> code c \<and> code c \<le> 57)"

text \<open>White space and line terminators of ECMAScript below 256: TAB, LF, VT, FF, CR,
  SPACE and NO-BREAK SPACE. Both \<^verbatim>\<open>trim\<close> and \<^verbatim>\<open>\s\<close> use this set.\<close>

definition isSpace :: "char \<Rightarrow> bool" where
  "isSpace c = ((9 \<le> code c \<and> code c \<le> 13) \<or> code c = 32 \<or> code c = 160)"

definition trim :: "string \<Rightarrow> string" where
  "trim s = rev (dropWhile isSpace (rev (dropWhile isSpace s)))"

definition startsWith :: "string \<Rightarrow> string \<Rightarrow> bool" where
  "startsWith s p = (take (length p) s = p)"

definition endsWith :: "string \<Rightarrow> string \<Rightarrow> bool" where
  "endsWith s p = (length p \<le> length s \<and> drop (length s - length p) s = p)"

text \<open>\<^verbatim>\<open>s.includes(p)\<close>: \<open>p\<close> occurs in \<open>s\<close> as a contiguous substring.\<close>

fun includesStr :: "string \<Rightarrow> string \<Rightarrow> bool" where
  "includesStr [] p = (p = [])"
| "includesStr (c # cs) p = (startsWith (c # cs) p \<or> includesStr cs p)"

text \<open>\<^verbatim>\<open>s.replace(p, r)\<close> with a string pattern replaces the first occurrence only.\<close>

fun replaceFirst :: "string \<Rightarrow> string \<Rightarrow> string \<Rightarrow> string" where
  "replaceFirst [] p r = (if p = [] then r else [])"
| "replaceFirst (c # cs) p r =
     (if startsWith (c # cs) p then r @ drop (length p) (c # cs)
      else c # replaceFirst cs p r)"

text \<open>\<^verbatim>\<open>s.split(d)\<close> for a one-character separator: the pieces between separators,
  always at least one piece.\<close>

fun splitOn :: "char \<Rightarrow> string \<Rightarrow> string list" where
  "splitOn d [] = [[]]"
| "splitOn d (c # cs) =
     (case splitOn d cs of
        [] \<Rightarrow> [[c]]
      | piece # rest \<Rightarrow> if c = d then [] # piece # rest else (c # piece) # rest)"

section \<open>The ID normalizer\<close>

text \<open>
  \<^verbatim>\<open>replace(/[^\w.]/g, '')\<close> keeps exactly the word characters and the literal dot.
\<close>

definition keepChar :: "char \<Rightarrow> bool" where
  "keepChar c = (isWordChar c \<or> c = CHR ''.'')"

text \<open>
  \<^verbatim>\<open>EPGManager.normalizeId\<close> (epg-manager.js):
  \<^verbatim>\<open>return id?.toLowerCase().replace(/[^\w.]/g, '').trim() || '';\<close>
  The argument is optional: \<open>None\<close> stands for \<^verbatim>\<open>null\<close> and \<^verbatim>\<open>undefined\<close>, on which
  \<^verbatim>\<open>?.\<close> short-circuits to \<^verbatim>\<open>undefined\<close>; \<^verbatim>\<open>|| ''\<close> then gives the empty string, as
  it does for an empty result.
\<close>

definition normalizeId :: "string option \<Rightarrow> string" where
  "normalizeId ident =
     (case ident of
        None \<Rightarrow> []
      | Some s \<Rightarrow>
          (let r = trim (filter keepChar (toLowerCase s)) in if r = [] then [] else r))"

subsection \<open>The normalizer on UTF-16 strings\<close>

text \<open>
  A JavaScript string is a sequence of 16-bit code units. Beyond Latin-1,
  \<^verbatim>\<open>toLowerCase\<close> is not a map on single code units (U+0130 becomes two units, the
  final sigma depends on its neighbours), and its table belongs to the runtime, not to
  the repository. So here the runtime's \<^verbatim>\<open>toLowerCase\<close> is a parameter \<open>lower\<close>, and
  the rest of the source line is written out on code units: the class \<^verbatim>\<open>[^\w.]\<close>, and
  \<^verbatim>\<open>trim\<close> with the white space and line terminators of ECMAScript.
\<close>

type_synonym code_unit = "16 word"

type_synonym jsstring = "code_unit list"

definition isWordUnit :: "code_unit \<Rightarrow> bool" where
  "isWordUnit c =
     ((0x30 \<le> c \<and> c \<le> 0x39) \<or> (0x41 \<le> c \<and> c \<le> 0x5A) \<or> c = 0x5F \<or> (0x61 \<le> c \<and> c \<le> 0x7A))"

definition keepUnit :: "code_unit \<Rightarrow> bool" where
  "keepUnit c = (isWordUnit c \<or> c = 0x2E)"

text \<open>TAB, LF, VT, FF, CR, SPACE, NO-BREAK SPACE, U+1680, U+2000..U+200A, the line and
  paragraph separators U+2028 and U+2029, U+202F, U+205F, U+3000 and U+FEFF.\<close>

definition isSpaceUnit :: "code_unit \<Rightarrow> bool" where
  "isSpaceUnit c =
     ((0x09 \<le> c \<and> c \<le> 0x0D) \<or> c = 0x20 \<or> c = 0xA0 \<or> c = 0x1680
      \<or> (0x2000 \<le> c \<and> c \<le> 0x200A) \<or> c = 0x2028 \<or> c = 0x2029 \<or> c = 0x202F
      \<or> c = 0x205F \<or> c = 0x3000 \<or> c = 0xFEFF)"

definition trimUnits :: "jsstring \<Rightarrow> jsstring" where
  "trimUnits s = rev (dropWhile isSpaceUnit (rev (dropWhile isSpaceUnit s)))"

text \<open>\<^verbatim>\<open>id?.toLowerCase().replace(/[^\w.]/g, '').trim() || ''\<close> on code units.\<close>

definition normalizeIdUtf16 :: "(jsstring \<Rightarrow> jsstring) \<Rightarrow> jsstring option \<Rightarrow> jsstring" where
  "normalizeIdUtf16 lower ident =
     (case ident of
        None \<Rightarrow> []
      | Some s \<Rightarrow>
          (let r = trimUnits (filter keepUnit (lower s)) in if r = [] then [] else r))"

text \<open>
  \<^verbatim>\<open>CacheManager.normalizeId(id, removeSuffix = false)\<close> on code units; \<open>idSuffix\<close>
  is \<^verbatim>\<open>this.config?.id_suffix\<close>.
\<close>

definition cmNormalizeIdUtf16 ::
  "(jsstring \<Rightarrow> jsstring) \<Rightarrow> jsstring option \<Rightarrow> jsstring option \<Rightarrow> bool \<Rightarrow> jsstring" where
  "cmNormalizeIdUtf16 lower idSuffix ident removeSuffix =
     (let normalized = normalizeIdUtf16 lower ident in
      if removeSuffix \<and> idSuffix \<noteq> None \<and> idSuffix \<noteq> Some [] then
        (let suffix = 0x2E # the idSuffix in
         if length suffix \<le> length normalized
            \<and> drop (length normalized - length suffix) normalized = suffix
         then take (length normalized - length suffix) normalized
         else normalized)
      else normalized)"

text \<open>
  What the proofs use of the runtime's \<^verbatim>\<open>toLowerCase\<close>: its result holds no ASCII
  capital \<open>A..Z\<close>, and it leaves a string of \<open>a..z\<close>, \<open>0..9\<close>, \<open>_\<close> and \<open>.\<close> as it
  is.
\<close>

definition isNormUnit :: "code_unit \<Rightarrow> bool" where
  "isNormUnit c =
     ((0x30 \<le> c \<and> c \<le> 0x39) \<or> c = 0x5F \<or> (0x61 \<le> c \<and> c \<le> 0x7A) \<or> c = 0x2E)"

definition isCapitalUnit :: "code_unit \<Rightarrow> bool" where
  "isCapitalUnit c = (0x41 \<le> c \<and> c \<le> 0x5A)"

text \<open>
  A lower-casing function for examples: ASCII capitals move up by 32, U+0130 (capital I
  with dot above) becomes \<open>i\<close> followed by U+0307, and U+212A (the Kelvin sign) becomes
  \<open>k\<close>, as in the runtime; everything else is left alone.
\<close>

definition sampleLowerUnit :: "code_unit \<Rightarrow> jsstring" where
  "sampleLowerUnit c =
     (if isCapitalUnit c then [c + 0x20]
      else if c = 0x130 then [0x69, 0x307]
      else if c = 0x212A then [0x6B]
      else [c])"

definition sampleLower :: "jsstring \<Rightarrow> jsstring" where
  "sampleLower s = concat (map sampleLowerUnit s)"

section \<open>Errors\<close>

text \<open>
  Every \<^verbatim>\<open>throw\<close> of the sources, and every exception of the runtime that the modelled
  paths can meet, is a value of this type; a function that can throw returns
  \<open>error + 'a\<close> with \<open>Inl\<close> for the exception.
\<close>

datatype error =
    TypeError                 \<comment> \<open>property access on \<^verbatim>\<open>null\<close>/\<^verbatim>\<open>undefined\<close>\<close>
  | BindError                 \<comment> \<open>sql.js refuses to bind a value that is an object\<close>
  | InvalidStructure          \<comment> \<open>\<^verbatim>\<open>new Error('Struttura XML EPG non valida')\<close>\<close>
  | ExternalFailure string    \<comment> \<open>a failure of an external collaborator (fetch, transform)\<close>

text \<open>JavaScript truthiness of an optional string, as used by \<^verbatim>\<open>!x\<close>, \<^verbatim>\<open>&&\<close> and
  \<^verbatim>\<open>||\<close>: \<^verbatim>\<open>null\<close>, \<^verbatim>\<open>undefined\<close> and \<^verbatim>\<open>''\<close> are falsy.\<close>

definition truthy :: "string option \<Rightarrow> bool" where
  "truthy x = (case x of None \<Rightarrow> False | Some s \<Rightarrow> s \<noteq> [])"

section \<open>The catalog store (CacheManager)\<close>

subsection \<open>Data\<close>

text \<open>
  A channel record as the catalog queries read it: \<^verbatim>\<open>id\<close>, \<^verbatim>\<open>name\<close>, \<^verbatim>\<open>genre\<close>
  (tested with \<^verbatim>\<open>Array.isArray\<close>, so possibly absent) and \<^verbatim>\<open>streamInfo?.tvg?.id\<close>
  (absent when any link of the chain is). The other fields of a channel live in the
  record's extension.
\<close>

record channel =
  ch_id :: string
  ch_name :: "string option"
  ch_genre :: "string list option"
  ch_tvg_id :: "string option"

text \<open>The configuration object, as a map from keys to values;
  \<^verbatim>\<open>{...a, ...b}\<close> is \<open>a ++ b\<close>.\<close>

type_synonym config = "string \<rightharpoonup> string"

text \<open>The result of the external transform \<^verbatim>\<open>loadAndTransform\<close>.\<close>

record stremio_data =
  channels :: "channel list"
  genres :: "string list"
  epgUrls :: "string list option"

text \<open>\<^verbatim>\<open>this.cache\<close>, as built by \<^verbatim>\<open>initCache\<close>, \<^verbatim>\<open>loadCacheFromDB\<close> and
  \<^verbatim>\<open>rebuildCache\<close>.\<close>

record cache =
  stremioData :: "stremio_data option"
  lastUpdated :: "int option"
  updateInProgress :: bool
  m3uUrl :: "string option"
  cache_epgUrls :: "string list option"

datatype meta_value = MetaInt int | MetaString string | MetaUrls "string list"

text \<open>The sql.js database of the catalog: table \<^verbatim>\<open>channels (id PRIMARY KEY, data)\<close>,
  table \<^verbatim>\<open>genres (genre PRIMARY KEY)\<close> and table \<^verbatim>\<open>metadata (key PRIMARY KEY, value)\<close>.\<close>

record cache_db =
  tbl_channels :: "(string \<times> channel) list"
  tbl_genres :: "string list"
  tbl_metadata :: "string \<rightharpoonup> meta_value"

datatype event = CacheUpdated cache | CacheError error

text \<open>
  The state of a \<^verbatim>\<open>CacheManager\<close>. \<open>cm_db\<close> is the in-memory database
  (\<open>None\<close> while \<^verbatim>\<open>this.db\<close> is \<^verbatim>\<open>null\<close>), \<open>cm_disk\<close> the file
  \<^verbatim>\<open>data/cache.db\<close>, \<open>emitted\<close> the events passed to \<^verbatim>\<open>emit\<close> so far and
  \<open>transformCalls\<close> the arguments of every call of \<^verbatim>\<open>loadAndTransform\<close> so far.
\<close>

record cm_state =
  cache :: cache
  cm_config :: "config option"
  cm_db :: "cache_db option"
  cm_disk :: "cache_db option"
  emitted :: "event list"
  transformCalls :: "(string option \<times> config option) list"

type_synonym transform = "string option \<Rightarrow> config option \<Rightarrow> error + stremio_data"

subsection \<open>Normalization with the optional suffix\<close>

text \<open>
  \<^verbatim>\<open>CacheManager.normalizeId(id, removeSuffix = false)\<close>. Its first statement is the
  expression of \<^verbatim>\<open>EPGManager.normalizeId\<close>, character for character; the suffix is
  removed only when \<^verbatim>\<open>removeSuffix\<close> is set and \<^verbatim>\<open>config.id_suffix\<close> is truthy.
\<close>

definition id_suffix :: "config option \<Rightarrow> string option" where
  "id_suffix cfg = (case cfg of None \<Rightarrow> None | Some c \<Rightarrow> c ''id_suffix'')"

definition cmNormalizeId :: "config option \<Rightarrow> string option \<Rightarrow> bool \<Rightarrow> string" where
  "cmNormalizeId cfg ident removeSuffix =
     (let normalized = normalizeId ident in
      if removeSuffix \<and> truthy (id_suffix cfg) then
        (let suffix = ''.'' @ the (id_suffix cfg) in
         if endsWith normalized suffix
         then take (length normalized - length suffix) normalized
         else normalized)
      else normalized)"

subsection \<open>Persistence\<close>

text \<open>\<^verbatim>\<open>saveDatabase\<close>: export the database and write the file.\<close>

definition cmSaveDatabase :: "cm_state \<Rightarrow> cm_state" where
  "cmSaveDatabase s = s\<lparr>cm_disk := cm_db s\<rparr>"

text \<open>The loop over the channels: a row whose id is already in the table violates the
  primary key; the exception is caught per channel and the row skipped.\<close>

fun insertChannels :: "channel list \<Rightarrow> (string \<times> channel) list \<Rightarrow> (string \<times> channel) list" where
  "insertChannels [] tbl = tbl"
| "insertChannels (c # cs) tbl =
     (if ch_id c \<in> fst ` set tbl then insertChannels cs tbl
      else insertChannels cs (tbl @ [(ch_id c, c)]))"

text \<open>The loop over the genres has no \<^verbatim>\<open>try\<close> of its own: a duplicate genre throws
  out of the loop; \<open>False\<close> reports that.\<close>

fun insertGenres :: "string list \<Rightarrow> string list \<Rightarrow> string list \<times> bool" where
  "insertGenres [] tbl = (tbl, True)"
| "insertGenres (g # gs) tbl =
     (if g \<in> set tbl then (tbl, False) else insertGenres gs (tbl @ [g]))"

definition saveMetadata :: "cache \<Rightarrow> (string \<rightharpoonup> meta_value) \<Rightarrow> (string \<rightharpoonup> meta_value)" where
  "saveMetadata c m =
     (let m1 = (case lastUpdated c of
                  Some t \<Rightarrow> if t \<noteq> 0 then m(''lastUpdated'' \<mapsto> MetaInt t) else m
                | None \<Rightarrow> m);
          m2 = (if truthy (m3uUrl c) then m1(''m3uUrl'' \<mapsto> MetaString (the (m3uUrl c))) else m1)
      in case cache_epgUrls c of
           Some us \<Rightarrow> m2(''epgUrls'' \<mapsto> MetaUrls us)
         | None \<Rightarrow> m2)"

text \<open>
  \<^verbatim>\<open>saveCacheToDB\<close>: metadata, then the channel table and the genre table, each
  emptied and refilled, then \<^verbatim>\<open>saveDatabase\<close>. Everything sits in one \<^verbatim>\<open>try\<close>: with no
  database, or after a duplicate genre, the file is not written.
\<close>

definition saveCacheToDB :: "cm_state \<Rightarrow> cm_state" where
  "saveCacheToDB s =
     (case cm_db s of
        None \<Rightarrow> s
      | Some d \<Rightarrow>
          (let d1 = d\<lparr>tbl_metadata := saveMetadata (cache s) (tbl_metadata d)\<rparr> in
           case stremioData (cache s) of
             None \<Rightarrow> cmSaveDatabase (s\<lparr>cm_db := Some d1\<rparr>)
           | Some sd \<Rightarrow>
               (let d2 = d1\<lparr>tbl_channels := insertChannels (channels sd) []\<rparr>;
                    (gs, ok) = insertGenres (genres sd) [];
                    s3 = s\<lparr>cm_db := Some (d2\<lparr>tbl_genres := gs\<rparr>)\<rparr>
                in if ok then cmSaveDatabase s3 else s3)))"

subsection \<open>Rebuild\<close>

text \<open>
  \<^verbatim>\<open>rebuildCache(m3uUrl, config)\<close> suspends once, at
  \<^verbatim>\<open>await this.transformer.loadAndTransform(m3uUrl, this.config)\<close>. The model has one
  function for the part before the suspension and one for the part after it, so that
  another call can be placed in between.

  \<open>rebuildCache_begin\<close> is the synchronous prefix: the single-flight test, the flag,
  the merge of the configuration and the call of the transform (recorded in
  \<open>transformCalls\<close>). It returns \<open>None\<close> when the call was skipped.
\<close>

definition mergeConfig :: "config option \<Rightarrow> config option \<Rightarrow> config option" where
  "mergeConfig old new =
     (case new of
        None \<Rightarrow> old
      | Some n \<Rightarrow> Some ((case old of None \<Rightarrow> Map.empty | Some c \<Rightarrow> c) ++ n))"

definition rebuildCache_begin :: "string option \<Rightarrow> config option \<Rightarrow> cm_state \<Rightarrow> cm_state option" where
  "rebuildCache_begin url cfg s =
     (if updateInProgress (cache s) then None
      else
        (let s1 = s\<lparr>cache := (cache s)\<lparr>updateInProgress := True\<rparr>\<rparr>;
             s2 = s1\<lparr>cm_config := mergeConfig (cm_config s1) cfg\<rparr>
         in Some (s2\<lparr>transformCalls := transformCalls s2 @ [(url, cm_config s2)]\<rparr>)))"

text \<open>
  \<open>rebuildCache_settle\<close> is the continuation, run on the state at the time the
  transform settles: with \<open>Inr data\<close> the statements after the \<^verbatim>\<open>await\<close>
  (\<open>now\<close> is the value of \<^verbatim>\<open>Date.now()\<close>), with \<open>Inl e\<close> the \<^verbatim>\<open>catch\<close> block, which
  rethrows.
\<close>

definition rebuildCache_settle ::
  "string option \<Rightarrow> int \<Rightarrow> error + stremio_data \<Rightarrow> cm_state \<Rightarrow> cm_state \<times> (error + unit)" where
  "rebuildCache_settle url now outcome s =
     (case outcome of
        Inr data \<Rightarrow>
          (let c = \<lparr>stremioData = Some data, lastUpdated = Some now, updateInProgress = False,
                    m3uUrl = url, cache_epgUrls = epgUrls data\<rparr>;
               s1 = saveCacheToDB (s\<lparr>cache := c\<rparr>)
           in (s1\<lparr>emitted := emitted s1 @ [CacheUpdated c]\<rparr>, Inr ()))
      | Inl e \<Rightarrow>
          (let s1 = s\<lparr>cache := (cache s)\<lparr>updateInProgress := False\<rparr>\<rparr>
           in (s1\<lparr>emitted := emitted s1 @ [CacheError e]\<rparr>, Inl e)))"

text \<open>A call that runs with nothing in between: the transform \<open>tr\<close> answers at once.\<close>

definition rebuildCache ::
  "transform \<Rightarrow> int \<Rightarrow> string option \<Rightarrow> config option \<Rightarrow> cm_state \<Rightarrow> cm_state \<times> (error + unit)" where
  "rebuildCache tr now url cfg s =
     (case rebuildCache_begin url cfg s of
        None \<Rightarrow> (s, Inr ())
      | Some s1 \<Rightarrow> rebuildCache_settle url now (tr url (cm_config s1)) s1)"

subsection \<open>Catalog queries\<close>

text \<open>
  \<^verbatim>\<open>getChannel(channelId)\<close>. \<open>None\<close> is both the \<^verbatim>\<open>null\<close> of the guard and the
  \<^verbatim>\<open>undefined\<close> of a \<^verbatim>\<open>find\<close> without a hit. The first \<^verbatim>\<open>find\<close> tests the id and the
  guide-linkage id of a channel in one predicate; the \<^verbatim>\<open>find\<close> by name runs only when
  the first one found nothing.
\<close>

definition matchesIdOrTvg :: "config option \<Rightarrow> string \<Rightarrow> channel \<Rightarrow> bool" where
  "matchesIdOrTvg cfg normalizedSearchId ch =
     (let normalizedChannelId = cmNormalizeId cfg (Some (replaceFirst (ch_id ch) ''tv|'' [])) False;
          normalizedTvgId = cmNormalizeId cfg (ch_tvg_id ch) False
      in normalizedChannelId = normalizedSearchId \<or> normalizedTvgId = normalizedSearchId)"

definition matchesName :: "config option \<Rightarrow> string \<Rightarrow> channel \<Rightarrow> bool" where
  "matchesName cfg normalizedSearchId ch = (cmNormalizeId cfg (ch_name ch) False = normalizedSearchId)"

definition getChannel :: "string option \<Rightarrow> cm_state \<Rightarrow> channel option" where
  "getChannel channelId s =
     (if \<not> truthy channelId then None
      else case stremioData (cache s) of
        None \<Rightarrow> None
      | Some sd \<Rightarrow>
          (let normalizedSearchId = cmNormalizeId (cm_config s) channelId False in
           case find (matchesIdOrTvg (cm_config s) normalizedSearchId) (channels sd) of
             Some ch \<Rightarrow> Some ch
           | None \<Rightarrow> find (matchesName (cm_config s) normalizedSearchId) (channels sd)))"

definition getChannelsByGenre :: "string option \<Rightarrow> cm_state \<Rightarrow> channel list" where
  "getChannelsByGenre genre s =
     (if \<not> truthy genre then []
      else case stremioData (cache s) of
        None \<Rightarrow> []
      | Some sd \<Rightarrow>
          filter (\<lambda>ch. case ch_genre ch of None \<Rightarrow> False | Some gs \<Rightarrow> the genre \<in> set gs)
            (channels sd))"

definition searchChannels :: "string option \<Rightarrow> cm_state \<Rightarrow> channel list" where
  "searchChannels query s =
     (case stremioData (cache s) of
        None \<Rightarrow> []
      | Some sd \<Rightarrow>
          if \<not> truthy query then channels sd
          else
            (let normalizedQuery = cmNormalizeId (cm_config s) query False in
             filter (\<lambda>ch. includesStr (cmNormalizeId (cm_config s) (ch_name ch) False) normalizedQuery)
               (channels sd)))"

section \<open>The guide store (EPGManager)\<close>

subsection \<open>Data\<close>

text \<open>A row of table \<^verbatim>\<open>programs\<close>. The autoincrement key is the position in the list:
  rows are kept in insertion order.\<close>

record program_row =
  channel_id :: string
  start_time :: int
  stop_time :: int
  title :: string
  description :: string
  category :: string

text \<open>The sql.js database of the guide: table \<^verbatim>\<open>programs\<close> and table
  \<^verbatim>\<open>channel_icons (channel_id PRIMARY KEY, icon_url)\<close>.\<close>

record epg_db =
  programs :: "program_row list"
  channel_icons :: "string \<rightharpoonup> string"

text \<open>
  The state of the \<^verbatim>\<open>EPGManager\<close>: the in-memory database (\<open>None\<close> while
  \<^verbatim>\<open>this.db\<close> is \<^verbatim>\<open>null\<close>), the file \<^verbatim>\<open>data/epg.db\<close>, \<^verbatim>\<open>lastUpdate\<close>,
  \<^verbatim>\<open>isUpdating\<close>, \<^verbatim>\<open>offsetMinutes\<close>, and the URLs requested from the network so far.
\<close>

record epg_state =
  epg_db :: "epg_db option"
  epg_disk :: "epg_db option"
  lastUpdate :: "int option"
  isUpdating :: bool
  offsetMinutes :: int
  fetchLog :: "string list"

text \<open>
  The document xml2js hands over. A text element is either a plain string or an object
  with the text under \<^verbatim>\<open>_\<close> and the attributes under \<^verbatim>\<open>$\<close>; of the attributes only
  \<^verbatim>\<open>text\<close> is read.
\<close>

datatype xml_text = XString string | XElem "string option" "string option"

record prog_attrs =
  a_channel :: "string option"
  a_start :: "string option"
  a_stop :: "string option"

record xml_programme =
  p_attrs :: "prog_attrs option"          \<comment> \<open>\<^verbatim>\<open>program.$\<close>\<close>
  p_title :: "xml_text list option"
  p_desc :: "xml_text list option"
  p_category :: "xml_text list option"

record xml_channel =
  c_attrs :: "string option option"       \<comment> \<open>\<^verbatim>\<open>channel.$\<close>, holding \<^verbatim>\<open>id\<close>\<close>
  c_icon :: "string option"               \<comment> \<open>\<^verbatim>\<open>channel.icon?.[0]?.$?.src\<close>\<close>

record xml_tv =
  tv_channel :: "xml_channel list option"
  tv_programme :: "xml_programme list option"

datatype http_body = BodyText string | BodyOther

datatype url_arg = UrlAbsent | UrlString string | UrlArray "string list"

text \<open>
  What the guide store consumes from outside: \<open>httpGet\<close> is \<^verbatim>\<open>axios.get\<close> as
  \<^verbatim>\<open>readExternalFile\<close> calls it; \<open>fetchXml\<close> is download, decompression and
  \<^verbatim>\<open>parseStringPromise\<close> together (\<open>Inr None\<close>: a document without \<^verbatim>\<open>tv\<close>);
  \<open>newDate\<close> is \<^verbatim>\<open>new Date(isoString).getTime()\<close>, \<open>None\<close> for \<^verbatim>\<open>NaN\<close>;
  \<open>toLocaleTime\<close> is \<^verbatim>\<open>toLocaleString('it-IT', ...)\<close>. The clock is read by the
  ingestion of the \<open>i\<close>-th URL (\<open>ingestTime i\<close>), by the cleanup after the update
  (\<open>cleanupTime\<close>) and by the \<^verbatim>\<open>finally\<close> block (\<open>finishTime\<close>).
\<close>

record epg_env =
  httpGet :: "string \<Rightarrow> error + http_body"
  fetchXml :: "string \<Rightarrow> error + xml_tv option"
  newDate :: "string \<Rightarrow> int option"
  toLocaleTime :: "int \<Rightarrow> string"
  ingestTime :: "nat \<Rightarrow> int"
  cleanupTime :: int
  finishTime :: int

definition CHUNK_SIZE :: nat where
  "CHUNK_SIZE = 5000"

definition oneHour :: int where
  "oneHour = 60 * 60 * 1000"

definition sevenDays :: int where
  "sevenDays = 7 * 24 * 60 * 60 * 1000"

definition oneDay :: int where
  "oneDay = 24 * 60 * 60 * 1000"

subsection \<open>Dates\<close>

text \<open>
  The regular expression of \<^verbatim>\<open>parseEPGDate\<close>,
  \<^verbatim>\<open>/^(\d{4})(\d{2})(\d{2})(\d{2})(\d{2})(\d{2})\s*([+-]\d{4})$/\<close>: fourteen digits, any
  run of white space, a sign and four digits, and nothing else. The result is the digits
  and the zone.
\<close>

definition matchEPGDate :: "string \<Rightarrow> (string \<times> string) option" where
  "matchEPGDate s =
     (let digits = take 14 s; zone = dropWhile isSpace (drop 14 s) in
      if length digits = 14 \<and> list_all isDigit digits \<and> length zone = 5
         \<and> (hd zone = CHR ''+'' \<or> hd zone = CHR ''-'') \<and> list_all isDigit (tl zone)
      then Some (digits, zone) else None)"

definition isoString :: "string \<Rightarrow> string \<Rightarrow> string" where
  "isoString digits zone =
     take 4 digits @ ''-'' @ take 2 (drop 4 digits) @ ''-'' @ take 2 (drop 6 digits) @ ''T''
       @ take 2 (drop 8 digits) @ '':'' @ take 2 (drop 10 digits) @ '':'' @ take 2 (drop 12 digits)
       @ take 3 zone @ '':'' @ drop 3 zone"

definition parseEPGDate :: "(string \<Rightarrow> int option) \<Rightarrow> string option \<Rightarrow> int option" where
  "parseEPGDate nd dateString =
     (if \<not> truthy dateString then None
      else case matchEPGDate (the dateString) of
        None \<Rightarrow> None
      | Some (digits, zone) \<Rightarrow> nd (isoString digits zone))"

text \<open>\<^verbatim>\<open>formatDateIT\<close>, for a date that is present.\<close>

definition formatDateIT :: "(int \<Rightarrow> string) \<Rightarrow> int \<Rightarrow> int \<Rightarrow> string" where
  "formatDateIT loc offset t =
     map (\<lambda>c. if c = CHR ''.'' then CHR '':'' else c) (loc (t + offset * 60000))"

subsection \<open>Ingestion\<close>

definition epgSaveDatabase :: "epg_state \<Rightarrow> epg_state" where
  "epgSaveDatabase s = s\<lparr>epg_disk := epg_db s\<rparr>"

text \<open>
  \<^verbatim>\<open>x?.[0]?._ || x?.[0]?.$?.text || x?.[0] || dflt\<close>. The third alternative is the
  element itself: a string when the element is a string, and otherwise the object, which
  the statement cannot bind (\<open>Inl BindError\<close>, thrown by \<^verbatim>\<open>stmt.run\<close>).
\<close>

definition extractText :: "xml_text list option \<Rightarrow> string \<Rightarrow> error + string" where
  "extractText x dflt =
     (case x of
        None \<Rightarrow> Inr dflt
      | Some [] \<Rightarrow> Inr dflt
      | Some (XString t # _) \<Rightarrow> Inr (if t \<noteq> [] then t else dflt)
      | Some (XElem u a # _) \<Rightarrow>
          if truthy u then Inr (the u)
          else if truthy a then Inr (the a)
          else Inl BindError)"

text \<open>
  The body of the inner loop of \<^verbatim>\<open>processEPGInChunks\<close> for one programme:
  \<open>Inr None\<close> is \<^verbatim>\<open>continue\<close>, \<open>Inr (Some row)\<close> the row that \<^verbatim>\<open>stmt.run\<close>
  inserts, \<open>Inl e\<close> an exception. \<open>now\<close> is the \<^verbatim>\<open>new Date()\<close> taken before the loop.
\<close>

definition ingestProgramme ::
  "(string \<Rightarrow> int option) \<Rightarrow> int \<Rightarrow> xml_programme \<Rightarrow> error + program_row option" where
  "ingestProgramme nd now program =
     (case p_attrs program of
        None \<Rightarrow> Inl TypeError
      | Some a \<Rightarrow>
          (let channelId = normalizeId (a_channel a);
               start = parseEPGDate nd (a_start a);
               stop = parseEPGDate nd (a_stop a)
           in if start = None \<or> stop = None then Inr None
              else if the stop < now - oneHour then Inr None
              else if the start > now + sevenDays then Inr None
              else
                (case extractText (p_title program) ''Nessun Titolo'' of
                   Inl e \<Rightarrow> Inl e
                 | Inr t \<Rightarrow>
                     (case extractText (p_desc program) [] of
                        Inl e \<Rightarrow> Inl e
                      | Inr d \<Rightarrow>
                          (case extractText (p_category program) [] of
                             Inl e \<Rightarrow> Inl e
                           | Inr c \<Rightarrow>
                               Inr (Some \<lparr>channel_id = channelId, start_time = the start,
                                          stop_time = the stop, title = t, description = d,
                                          category = c\<rparr>))))))"

text \<open>The inner loop over one chunk. The table has no uniqueness constraint besides the
  autoincrement key, so \<^verbatim>\<open>INSERT OR REPLACE\<close> appends. An exception leaves the rows
  inserted so far in place.\<close>

fun ingestChunk ::
  "(string \<Rightarrow> int option) \<Rightarrow> int \<Rightarrow> xml_programme list \<Rightarrow> program_row list
     \<Rightarrow> program_row list \<times> error option" where
  "ingestChunk nd now [] rows = (rows, None)"
| "ingestChunk nd now (p # ps) rows =
     (case ingestProgramme nd now p of
        Inl e \<Rightarrow> (rows, Some e)
      | Inr None \<Rightarrow> ingestChunk nd now ps rows
      | Inr (Some r) \<Rightarrow> ingestChunk nd now ps (rows @ [r]))"

text \<open>The outer loop:
  \<^verbatim>\<open>for (let i = 0; i < programs.length; i += this.CHUNK_SIZE)\<close> with
  \<^verbatim>\<open>programs.slice(i, i + this.CHUNK_SIZE)\<close>.\<close>

function ingestFrom ::
  "(string \<Rightarrow> int option) \<Rightarrow> int \<Rightarrow> xml_programme list \<Rightarrow> nat \<Rightarrow> program_row list
     \<Rightarrow> program_row list \<times> error option" where
  "ingestFrom nd now progs i rows =
     (if i < length progs then
        (case ingestChunk nd now (take CHUNK_SIZE (drop i progs)) rows of
           (rows', Some e) \<Rightarrow> (rows', Some e)
         | (rows', None) \<Rightarrow> ingestFrom nd now progs (i + CHUNK_SIZE) rows')
      else (rows, None))"
  by pat_completeness auto
termination
  by (relation "measure (\<lambda>(nd, now, progs, i, rows). length progs - i)")
     (auto simp: CHUNK_SIZE_def)

declare ingestFrom.simps [simp del]

text \<open>The loop over \<^verbatim>\<open>data.tv.channel\<close>: \<^verbatim>\<open>INSERT OR REPLACE\<close> on the primary key is
  a map update.\<close>

fun ingestIcons :: "xml_channel list \<Rightarrow> (string \<rightharpoonup> string) \<Rightarrow> (string \<rightharpoonup> string) \<times> error option" where
  "ingestIcons [] icons = (icons, None)"
| "ingestIcons (c # cs) icons =
     (case c_attrs c of
        None \<Rightarrow> (icons, Some TypeError)
      | Some i \<Rightarrow>
          (let ident = normalizeId i in
           if ident \<noteq> [] \<and> truthy (c_icon c)
           then ingestIcons cs (icons(ident \<mapsto> the (c_icon c)))
           else ingestIcons cs icons))"

text \<open>
  \<^verbatim>\<open>processEPGInChunks(data)\<close>; the argument is \<^verbatim>\<open>data.tv\<close>. The second component is
  the exception that leaves the function, if any. The database is saved only when the
  end of the function is reached.
\<close>

definition processEPGInChunks ::
  "(string \<Rightarrow> int option) \<Rightarrow> int \<Rightarrow> xml_tv option \<Rightarrow> epg_state \<Rightarrow> epg_state \<times> error option" where
  "processEPGInChunks nd now tv s =
     (case tv of
        None \<Rightarrow> (s, None)
      | Some t \<Rightarrow>
          (case epg_db s of
             None \<Rightarrow>
               if tv_channel t = None \<and> tv_programme t = None then (s, None)
               else (s, Some TypeError)
           | Some d \<Rightarrow>
               (let (icons, e1) =
                      (case tv_channel t of
                         None \<Rightarrow> (channel_icons d, None)
                       | Some cs \<Rightarrow> ingestIcons cs (channel_icons d));
                    d1 = d\<lparr>channel_icons := icons\<rparr>
                in case e1 of
                     Some e \<Rightarrow> (s\<lparr>epg_db := Some d1\<rparr>, Some e)
                   | None \<Rightarrow>
                       (case tv_programme t of
                          None \<Rightarrow> (s\<lparr>epg_db := Some d1\<rparr>, None)
                        | Some progs \<Rightarrow>
                            (let (rows, e2) = ingestFrom nd now progs 0 (programs d1);
                                 s2 = s\<lparr>epg_db := Some (d1\<lparr>programs := rows\<rparr>)\<rparr>
                             in case e2 of
                                  Some e \<Rightarrow> (s2, Some e)
                                | None \<Rightarrow> (epgSaveDatabase s2, None))))))"

subsection \<open>Retention cleanup\<close>

text \<open>
  \<^verbatim>\<open>cleanupOldPrograms\<close>: \<^verbatim>\<open>DELETE FROM programs WHERE stop_time < ?\<close> with
  \<^verbatim>\<open>Date.now() - 60 * 60 * 1000\<close>, then \<^verbatim>\<open>saveDatabase\<close>. Without a database the first
  statement throws.
\<close>

definition cleanupOldPrograms :: "int \<Rightarrow> epg_state \<Rightarrow> epg_state \<times> error option" where
  "cleanupOldPrograms now s =
     (case epg_db s of
        None \<Rightarrow> (s, Some TypeError)
      | Some d \<Rightarrow>
          (let oneHourAgo = now - oneHour;
               d1 = d\<lparr>programs := filter (\<lambda>r. \<not> stop_time r < oneHourAgo) (programs d)\<rparr>
           in (epgSaveDatabase (s\<lparr>epg_db := Some d1\<rparr>), None)))"

subsection \<open>Refresh\<close>

text \<open>
  \<^verbatim>\<open>readExternalFile(url)\<close>. The tests on \<^verbatim>\<open>url\<close> before the \<^verbatim>\<open>try\<close> throw on an
  absent \<^verbatim>\<open>url\<close>; everything after is caught and answers \<^verbatim>\<open>[url]\<close>, also a body
  that is not a string (\<^verbatim>\<open>content.split\<close> is then not a function).
\<close>

definition urlsOfBody :: "string \<Rightarrow> http_body \<Rightarrow> string list" where
  "urlsOfBody url content =
     (case content of
        BodyOther \<Rightarrow> [url]
      | BodyText c \<Rightarrow>
          if includesStr c ''<?xml'' \<or> includesStr c ''<tv'' then [url]
          else
            (let urls = filter (\<lambda>line. trim line \<noteq> [] \<and> startsWith line ''http'')
                          (splitOn (CHR 0x0A) c)
             in if length urls > 0 then urls else [url]))"

definition readExternalFile :: "epg_env \<Rightarrow> url_arg \<Rightarrow> epg_state \<Rightarrow> epg_state \<times> (error + string list)" where
  "readExternalFile env url s =
     (case url of
        UrlArray us \<Rightarrow> (s, Inr us)
      | UrlAbsent \<Rightarrow> (s, Inl TypeError)
      | UrlString u \<Rightarrow>
          if includesStr u '','' then (s, Inr (map trim (splitOn (CHR '','') u)))
          else if endsWith u ''.gz'' then (s, Inr [u])
          else
            (let s1 = s\<lparr>fetchLog := fetchLog s @ [trim u]\<rparr> in
             case httpGet env (trim u) of
               Inl e \<Rightarrow> (s1, Inr [u])
             | Inr content \<Rightarrow> (s1, Inr (urlsOfBody u content))))"

text \<open>
  \<^verbatim>\<open>downloadAndProcessEPG(epgUrl)\<close>: every exception, of the download, of the parser,
  of the structure test and of \<^verbatim>\<open>processEPGInChunks\<close>, is caught and logged.
\<close>

definition downloadAndProcessEPG :: "epg_env \<Rightarrow> int \<Rightarrow> string \<Rightarrow> epg_state \<Rightarrow> epg_state" where
  "downloadAndProcessEPG env now epgUrl s =
     (let s1 = s\<lparr>fetchLog := fetchLog s @ [trim epgUrl]\<rparr> in
      case fetchXml env (trim epgUrl) of
        Inl e \<Rightarrow> s1
      | Inr None \<Rightarrow> s1
      | Inr (Some tv) \<Rightarrow> fst (processEPGInChunks (newDate env) now (Some tv) s1))"

text \<open>The loop \<^verbatim>\<open>for (const epgUrl of epgUrls)\<close>; \<open>i\<close> counts the URLs done.\<close>

fun processUrls :: "epg_env \<Rightarrow> nat \<Rightarrow> string list \<Rightarrow> epg_state \<Rightarrow> epg_state" where
  "processUrls env i [] s = s"
| "processUrls env i (u # us) s =
     processUrls env (Suc i) us (downloadAndProcessEPG env (ingestTime env i) u s)"

text \<open>
  The \<^verbatim>\<open>try\<close> block of \<^verbatim>\<open>startEPGUpdate\<close> after the flag is set; the second
  component is the exception the \<^verbatim>\<open>catch\<close> block logs.
\<close>

definition updateBody :: "epg_env \<Rightarrow> url_arg \<Rightarrow> epg_state \<Rightarrow> epg_state \<times> error option" where
  "updateBody env url s =
     (case readExternalFile env url s of
        (s1, Inl e) \<Rightarrow> (s1, Some e)
      | (s1, Inr urls) \<Rightarrow>
          (case epg_db s1 of
             None \<Rightarrow> (s1, Some TypeError)
           | Some d \<Rightarrow>
               (let s2 = s1\<lparr>epg_db := Some (d\<lparr>programs := [], channel_icons := Map.empty\<rparr>)\<rparr>;
                    s3 = processUrls env 0 urls s2
                in cleanupOldPrograms (cleanupTime env) s3)))"

text \<open>
  \<^verbatim>\<open>startEPGUpdate(url)\<close>. The guard returns before the \<^verbatim>\<open>try\<close>, so the
  \<^verbatim>\<open>finally\<close> block does not run for a skipped call. The function never throws.
\<close>

definition startEPGUpdate :: "epg_env \<Rightarrow> url_arg \<Rightarrow> epg_state \<Rightarrow> epg_state" where
  "startEPGUpdate env url s =
     (if isUpdating s then s
      else
        (let (s1, e) = updateBody env url (s\<lparr>isUpdating := True\<rparr>)
         in s1\<lparr>isUpdating := False, lastUpdate := Some (finishTime env)\<rparr>))"

subsection \<open>Guide queries\<close>

text \<open>What a query returns for a row: the texts, and start and stop formatted.\<close>

record program_view =
  v_title :: string
  v_description :: string
  v_category :: string
  v_start :: string
  v_stop :: string

definition viewOf :: "epg_env \<Rightarrow> epg_state \<Rightarrow> program_row \<Rightarrow> program_view" where
  "viewOf env s row =
     \<lparr>v_title = title row, v_description = description row, v_category = category row,
      v_start = formatDateIT (toLocaleTime env) (offsetMinutes s) (start_time row),
      v_stop = formatDateIT (toLocaleTime env) (offsetMinutes s) (stop_time row)\<rparr>"

text \<open>
  Both queries fix \<^verbatim>\<open>channel_id\<close> and bound \<^verbatim>\<open>start_time\<close>, and the database answers
  them by walking the index \<^verbatim>\<open>idx_channel_time ON programs(channel_id, start_time,
  stop_time)\<close>: the rows of the channel in ascending order of start time, then of stop
  time, then of row id. The sort is stable, so sorting by stop time and then by start
  time leaves rows that agree on both in insertion order, which is the order of the
  autoincrement row id.
\<close>

definition indexScan :: "string \<Rightarrow> program_row list \<Rightarrow> program_row list" where
  "indexScan normalizedId rows =
     sort_key start_time (sort_key stop_time (filter (\<lambda>r. channel_id r = normalizedId) rows))"

text \<open>
  \<^verbatim>\<open>WHERE channel_id = ? AND start_time <= ? AND stop_time >= ? LIMIT 1\<close>: the first
  row of the index walk that satisfies the two bounds, that is, among the matching rows
  the one with the smallest start time.
\<close>

definition selectCurrent :: "string \<Rightarrow> int \<Rightarrow> program_row list \<Rightarrow> program_row list" where
  "selectCurrent normalizedId now rows =
     take 1 (filter (\<lambda>r. start_time r \<le> now \<and> stop_time r \<ge> now) (indexScan normalizedId rows))"

definition getCurrentProgram :: "epg_env \<Rightarrow> int \<Rightarrow> string option \<Rightarrow> epg_state \<Rightarrow> program_view option" where
  "getCurrentProgram env now channelId s =
     (if \<not> truthy channelId \<or> epg_db s = None then None
      else
        (let normalizedId = normalizeId channelId in
         case selectCurrent normalizedId now (programs (the (epg_db s))) of
           [] \<Rightarrow> None
         | row # _ \<Rightarrow> Some (viewOf env s row)))"

text \<open>
  \<^verbatim>\<open>WHERE channel_id = ? AND start_time >= ? ORDER BY start_time ASC LIMIT 2\<close>: the
  index walk already is in ascending order of start time; rows with the same start come
  in order of stop time, then of row id.
\<close>

definition selectUpcoming :: "string \<Rightarrow> int \<Rightarrow> program_row list \<Rightarrow> program_row list" where
  "selectUpcoming normalizedId now rows =
     take 2 (filter (\<lambda>r. start_time r \<ge> now) (indexScan normalizedId rows))"

definition getUpcomingPrograms :: "epg_env \<Rightarrow> int \<Rightarrow> string option \<Rightarrow> epg_state \<Rightarrow> program_view list" where
  "getUpcomingPrograms env now channelId s =
     (if \<not> truthy channelId \<or> epg_db s = None then []
      else
        (let normalizedId = normalizeId channelId in
         map (viewOf env s) (selectUpcoming normalizedId now (programs (the (epg_db s))))))"

text \<open>
  \<^verbatim>\<open>needsUpdate()\<close>; \<open>now\<close> is \<^verbatim>\<open>Date.now()\<close>. \<^verbatim>\<open>!this.lastUpdate\<close> holds for
  \<^verbatim>\<open>null\<close> and for the number 0.
\<close>

definition needsUpdate :: "int \<Rightarrow> epg_state \<Rightarrow> bool" where
  "needsUpdate now s =
     (case lastUpdate s of
        None \<Rightarrow> True
      | Some t \<Rightarrow> if t = 0 then True else now - t \<ge> oneDay)"

section \<open>Auxiliary predicates and sample data\<close>

text \<open>The characters a normalized id is made of: \<open>a..z\<close>, \<open>0..9\<close>, the underscore
  and the dot.\<close>

definition isNormChar :: "char \<Rightarrow> bool" where
  "isNormChar c =
     ((48 \<le> code c \<and> code c \<le> 57) \<or> code c = 95 \<or> (97 \<le> code c \<and> code c \<le> 122)
      \<or> code c = 46)"

text \<open>The retention window of an ingestion that read the clock at \<open>now\<close>.\<close>

definition inWindow :: "int \<Rightarrow> program_row \<Rightarrow> bool" where
  "inWindow now r = (now - oneHour \<le> stop_time r \<and> start_time r \<le> now + sevenDays)"

text \<open>A catalog of two channels: the guide-linkage id of the first is the id of the
  second.\<close>

definition sampleChannelA :: channel where
  "sampleChannelA =
     \<lparr>ch_id = ''tv|a'', ch_name = Some ''Alpha'', ch_genre = Some [''news''], ch_tvg_id = Some ''b''\<rparr>"

definition sampleChannelB :: channel where
  "sampleChannelB =
     \<lparr>ch_id = ''tv|b'', ch_name = Some ''Beta'', ch_genre = Some [''sport''], ch_tvg_id = Some ''c''\<rparr>"

definition sampleCache :: cache where
  "sampleCache =
     \<lparr>stremioData = Some \<lparr>channels = [sampleChannelA, sampleChannelB],
                           genres = [''news'', ''sport''], epgUrls = None\<rparr>,
      lastUpdated = Some 1000, updateInProgress = False,
      m3uUrl = Some ''http://example.org/list.m3u'', cache_epgUrls = None\<rparr>"

definition sampleCatalog :: cm_state where
  "sampleCatalog =
     \<lparr>cache = sampleCache, cm_config = None, cm_db = None, cm_disk = None, emitted = [],
      transformCalls = []\<rparr>"

definition failingTransform :: transform where
  "failingTransform url cfg = Inl (ExternalFailure ''timeout'')"

text \<open>A guide document for 1 January 2026 and the instants (milliseconds since the epoch)
  of the dates in it; \<open>sampleNow\<close> is 10:15 UTC of that day.\<close>

definition sampleNewDate :: "string \<Rightarrow> int option" where
  "sampleNewDate str =
     (if str = ''2026-01-01T08:00:00+00:00'' then Some 1767254400000
      else if str = ''2026-01-01T10:00:00+00:00'' then Some 1767261600000
      else if str = ''2026-01-01T11:00:00+00:00'' then Some 1767265200000
      else if str = ''2026-01-01T12:00:00+00:00'' then Some 1767268800000
      else None)"

definition sampleNow :: int where
  "sampleNow = 1767262500000"

definition sampleProgramme :: "string \<Rightarrow> string \<Rightarrow> string \<Rightarrow> string \<Rightarrow> xml_programme" where
  "sampleProgramme ch start stop t =
     \<lparr>p_attrs = Some \<lparr>a_channel = Some ch, a_start = Some start, a_stop = Some stop\<rparr>,
      p_title = Some [XString t], p_desc = None, p_category = None\<rparr>"

definition sampleTv :: xml_tv where
  "sampleTv =
     \<lparr>tv_channel = Some [\<lparr>c_attrs = Some (Some ''Rai 1''),
                          c_icon = Some ''http://example.org/rai1.png''\<rparr>],
      tv_programme = Some
        [sampleProgramme ''Rai 1'' ''20260101100000 +0000'' ''20260101110000 +0000'' ''News'',
         sampleProgramme ''Rai 1'' ''20260101120000 +0000'' ''20260101110000 +0000'' ''Inverted'',
         sampleProgramme ''Rai 1'' ''20260101080000 +0000'' ''20260101080000 +0000'' ''Old'',
         sampleProgramme ''Rai 1'' ''20260101110000 +0000'' ''20260101120000 +0000'' ''Film'']\<rparr>"

text \<open>A document whose only programme names a channel without a single word character.\<close>

definition sampleUnnamedTv :: xml_tv where
  "sampleUnnamedTv =
     \<lparr>tv_channel = None,
      tv_programme = Some
        [sampleProgramme ''***'' ''20260101100000 +0000'' ''20260101110000 +0000'' ''Test card'']\<rparr>"

text \<open>A document with a programme from 08:00 to 10:00, and two clock readings one second
  apart: 11:00:00 and 11:00:01.\<close>

definition sampleEarlyTv :: xml_tv where
  "sampleEarlyTv =
     \<lparr>tv_channel = None,
      tv_programme = Some
        [sampleProgramme ''Rai 1'' ''20260101080000 +0000'' ''20260101100000 +0000'' ''Morning'']\<rparr>"

definition sampleFirstReading :: int where
  "sampleFirstReading = 1767265200000"

definition sampleSecondReading :: int where
  "sampleSecondReading = 1767265201000"

text \<open>A document with two programmes running at 10:15, the one inserted later starting
  earlier; and a document with three programmes starting together at 11:00.\<close>

definition sampleOverlapTv :: xml_tv where
  "sampleOverlapTv =
     \<lparr>tv_channel = None,
      tv_programme = Some
        [sampleProgramme ''Rai 1'' ''20260101100000 +0000'' ''20260101110000 +0000'' ''News'',
         sampleProgramme ''Rai 1'' ''20260101080000 +0000'' ''20260101120000 +0000'' ''Long'']\<rparr>"

definition sampleTiesTv :: xml_tv where
  "sampleTiesTv =
     \<lparr>tv_channel = None,
      tv_programme = Some
        [sampleProgramme ''Rai 1'' ''20260101110000 +0000'' ''20260101120000 +0000'' ''A'',
         sampleProgramme ''Rai 1'' ''20260101110000 +0000'' ''20260101120000 +0000'' ''B'',
         sampleProgramme ''Rai 1'' ''20260101110000 +0000'' ''20260101110000 +0000'' ''C'']\<rparr>"

definition sampleGuide :: epg_state where
  "sampleGuide =
     \<lparr>epg_db = Some \<lparr>programs = [], channel_icons = Map.empty\<rparr>, epg_disk = None,
      lastUpdate = None, isUpdating = False, offsetMinutes = 120, fetchLog = []\<rparr>"

text \<open>Two sources, the second ingested one second after the first.\<close>

definition sampleTwoSourceEnv :: epg_env where
  "sampleTwoSourceEnv =
     \<lparr>httpGet = (\<lambda>u. Inl (ExternalFailure ''offline'')),
      fetchXml = (\<lambda>u. if u = ''http://example.org/early.xml'' then Inr (Some sampleEarlyTv)
                       else if u = ''http://example.org/guide.xml'' then Inr (Some sampleTv)
                       else Inl (ExternalFailure ''offline'')),
      newDate = sampleNewDate,
      toLocaleTime = (\<lambda>t. ''00.00''),
      ingestTime = (\<lambda>i. if i = 0 then sampleFirstReading else sampleSecondReading),
      cleanupTime = sampleSecondReading,
      finishTime = sampleSecondReading\<rparr>"

definition sampleEnv :: epg_env where
  "sampleEnv =
     \<lparr>httpGet = (\<lambda>u. Inl (ExternalFailure ''offline'')),
      fetchXml = (\<lambda>u. if u = ''http://example.org/guide.xml'' then Inr (Some sampleTv)
                       else Inl (ExternalFailure ''offline'')),
      newDate = sampleNewDate,
      toLocaleTime = (\<lambda>t. ''00.00''),
      ingestTime = (\<lambda>i. sampleNow),
      cleanupTime = sampleNow,
      finishTime = sampleNow\<rparr>"

section \<open>Properties of the ID normalizer\<close>

lemma code_less: "code c < 256"
  unfolding code_def by (cases c) simp

lemma code_char_of: "n < 256 \<Longrightarrow> code (char_of n) = n"
  unfolding code_def by simp

lemma dot_code: "(c = CHR ''.'') = (code c = 46)"
proof -
  have "code CHR ''.'' = 46" by (simp add: code_def)
  then show ?thesis unfolding code_def by (metis of_char_eq_iff)
qed

lemma keep_lower_norm: "keepChar (toLowerCaseChar c) \<Longrightarrow> isNormChar (toLowerCaseChar c)"
  using code_less [of c]
  by (auto simp: keepChar_def toLowerCaseChar_def isWordChar_def isNormChar_def dot_code
        code_char_of split: if_splits)

lemma norm_lower: "isNormChar c \<Longrightarrow> toLowerCaseChar c = c"
  by (auto simp: toLowerCaseChar_def isNormChar_def)

lemma norm_keep: "isNormChar c \<Longrightarrow> keepChar c"
  by (auto simp: keepChar_def isWordChar_def isNormChar_def dot_code)

lemma norm_not_space: "isNormChar c \<Longrightarrow> \<not> isSpace c"
  by (auto simp: isSpace_def isNormChar_def)

lemma dropWhile_none: "\<forall>x\<in>set xs. \<not> P x \<Longrightarrow> dropWhile P xs = xs"
  by (cases xs) auto

lemma trim_no_space: "\<forall>c\<in>set s. \<not> isSpace c \<Longrightarrow> trim s = s"
  unfolding trim_def by (simp add: dropWhile_none)

lemma normalizeId_None: "normalizeId None = []"
  by (simp add: normalizeId_def)

lemma normalizeId_Some: "normalizeId (Some s) = filter keepChar (toLowerCase s)"
proof -
  have "\<forall>c\<in>set (filter keepChar (toLowerCase s)). \<not> isSpace c"
    by (auto simp: toLowerCase_def dest: keep_lower_norm norm_not_space)
  then have "trim (filter keepChar (toLowerCase s)) = filter keepChar (toLowerCase s)"
    by (rule trim_no_space)
  then show ?thesis by (simp add: normalizeId_def)
qed

lemma normalizeId_chars: "c \<in> set (normalizeId i) \<Longrightarrow> isNormChar c"
proof (cases i)
  case None
  assume "c \<in> set (normalizeId i)"
  with None show ?thesis by (simp add: normalizeId_None)
next
  case (Some s)
  assume "c \<in> set (normalizeId i)"
  with Some show ?thesis
    by (auto simp: normalizeId_Some toLowerCase_def dest: keep_lower_norm)
qed

lemma normalizeId_fixed: "\<forall>c\<in>set s. isNormChar c \<Longrightarrow> normalizeId (Some s) = s"
  unfolding normalizeId_Some toLowerCase_def
  by (induction s) (auto simp: norm_lower norm_keep)

lemma normalizeId_again: "normalizeId (Some (normalizeId i)) = normalizeId i"
  by (rule normalizeId_fixed) (auto dest: normalizeId_chars)

lemma cmNormalizeId_plain: "cmNormalizeId cfg i False = normalizeId i"
  by (simp add: cmNormalizeId_def)

text \<open>The normalizer on code units: the same argument, with the two facts about the
  runtime's \<^verbatim>\<open>toLowerCase\<close> in place of the table for Latin-1.\<close>

lemma norm_unit_keep: "isNormUnit c \<Longrightarrow> keepUnit c"
  by (auto simp: isNormUnit_def keepUnit_def isWordUnit_def)

lemma keep_unit_not_space: "keepUnit c \<Longrightarrow> \<not> isSpaceUnit c"
  unfolding keepUnit_def isWordUnit_def isSpaceUnit_def by unat_arith

lemma keep_not_capital_norm: "keepUnit c \<Longrightarrow> \<not> isCapitalUnit c \<Longrightarrow> isNormUnit c"
  by (auto simp: keepUnit_def isWordUnit_def isCapitalUnit_def isNormUnit_def)

lemma norm_unit_not_capital: "isNormUnit c \<Longrightarrow> \<not> isCapitalUnit c"
  unfolding isNormUnit_def isCapitalUnit_def by unat_arith

lemma capital_up: "isCapitalUnit c \<Longrightarrow> \<not> isCapitalUnit (c + 0x20)"
  unfolding isCapitalUnit_def by unat_arith

lemma trimUnits_no_space: "\<forall>c\<in>set s. \<not> isSpaceUnit c \<Longrightarrow> trimUnits s = s"
  unfolding trimUnits_def by (simp add: dropWhile_none)

lemma normalizeIdUtf16_None: "normalizeIdUtf16 lower None = []"
  by (simp add: normalizeIdUtf16_def)

lemma normalizeIdUtf16_Some: "normalizeIdUtf16 lower (Some s) = filter keepUnit (lower s)"
proof -
  have "\<forall>c\<in>set (filter keepUnit (lower s)). \<not> isSpaceUnit c"
    by (auto dest: keep_unit_not_space)
  then have "trimUnits (filter keepUnit (lower s)) = filter keepUnit (lower s)"
    by (rule trimUnits_no_space)
  then show ?thesis by (simp add: normalizeIdUtf16_def)
qed

lemma normalizeIdUtf16_units:
  assumes "\<forall>s. list_all (\<lambda>c. \<not> isCapitalUnit c) (lower s)"
  shows "c \<in> set (normalizeIdUtf16 lower i) \<Longrightarrow> isNormUnit c"
proof (cases i)
  case None
  assume "c \<in> set (normalizeIdUtf16 lower i)"
  with None show ?thesis by (simp add: normalizeIdUtf16_None)
next
  case (Some s)
  assume "c \<in> set (normalizeIdUtf16 lower i)"
  with Some have "c \<in> set (lower s)" "keepUnit c"
    by (simp_all add: normalizeIdUtf16_Some)
  moreover from assms have "\<forall>c\<in>set (lower s). \<not> isCapitalUnit c"
    by (simp add: list_all_iff)
  ultimately show ?thesis by (auto intro: keep_not_capital_norm)
qed

lemma normalizeIdUtf16_fixed:
  assumes "\<forall>s. list_all isNormUnit s \<longrightarrow> lower s = s" and "list_all isNormUnit s"
  shows "normalizeIdUtf16 lower (Some s) = s"
proof -
  from assms have "lower s = s" by simp
  moreover from assms(2) have "filter keepUnit s = s"
    by (induction s) (auto dest: norm_unit_keep)
  ultimately show ?thesis by (simp add: normalizeIdUtf16_Some)
qed

lemma sampleLower_no_capital: "list_all (\<lambda>c. \<not> isCapitalUnit c) (sampleLower s)"
proof -
  have "\<forall>u\<in>set (sampleLowerUnit c). \<not> isCapitalUnit u" for c
  proof (cases "isCapitalUnit c")
    case True
    then show ?thesis by (simp add: sampleLowerUnit_def capital_up)
  next
    case False
    have "\<not> isCapitalUnit 0x69" "\<not> isCapitalUnit 0x307" "\<not> isCapitalUnit 0x6B"
      by (simp_all add: isCapitalUnit_def)
    with False show ?thesis by (simp add: sampleLowerUnit_def)
  qed
  then show ?thesis
    by (auto simp: sampleLower_def list_all_iff)
qed

lemma sampleLower_fixes: "list_all isNormUnit s \<Longrightarrow> sampleLower s = s"
proof (induction s)
  case Nil
  show ?case by (simp add: sampleLower_def)
next
  case (Cons c s)
  then have n: "isNormUnit c" and IH: "sampleLower s = s" by simp_all
  from n have "\<not> isCapitalUnit c" by (rule norm_unit_not_capital)
  moreover from n have "c \<noteq> 0x130" "c \<noteq> 0x212A"
    unfolding isNormUnit_def by unat_arith+
  ultimately have "sampleLowerUnit c = [c]" by (simp add: sampleLowerUnit_def)
  with IH show ?case by (simp add: sampleLower_def)
qed


lemma unat_of_char: "unat (of_char c :: 16 word) = code c"
proof -
  have "(of_char c :: 16 word) = of_nat (of_char c)"
    by (simp add: of_nat_of_char)
  moreover have "(of_char c :: nat) < 256"
    using code_less [of c] by (simp add: code_def)
  then have "(of_char c :: nat) < 65536"
    by linarith
  ultimately show ?thesis
    by (simp add: code_def unat_of_nat)
qed

lemma keepUnit_of_char: "keepUnit (of_char c) = keepChar c"
  by (simp add: keepUnit_def isWordUnit_def keepChar_def isWordChar_def dot_code
      word_le_nat_alt word_unat_eq_iff unat_of_char)

lemma latin1_instance:
  assumes "lower (map of_char s) = map of_char (toLowerCase s)"
  shows "normalizeIdUtf16 lower (Some (map of_char s)) = map of_char (normalizeId (Some s))"
proof -
  have "filter keepUnit (map of_char (toLowerCase s)) = map of_char (filter keepChar (toLowerCase s))"
    by (simp add: filter_map comp_def keepUnit_of_char)
  then show ?thesis
    using assms
    by (simp add: normalizeIdUtf16_Some normalizeId_Some)
qed

text \<open>
  Claim C1. For every JavaScript string (a list of UTF-16 code units), absent or present,
  both normalizers (\<^verbatim>\<open>EPGManager.normalizeId\<close> and \<^verbatim>\<open>CacheManager.normalizeId\<close>
  without suffix removal) are idempotent, send an absent and an empty identifier to the
  empty string, and return the lower-case form of the input restricted to word characters
  and dots; trimming such a string changes nothing, and the result consists of \<open>a..z\<close>,
  \<open>0..9\<close>, \<open>_\<close> and \<open>.\<close> only. The runtime's \<^verbatim>\<open>toLowerCase\<close> enters through two
  facts: its result holds no ASCII capital, and it leaves a string of \<open>a..z\<close>, \<open>0..9\<close>,
  \<open>_\<close> and \<open>.\<close> unchanged. The same holds, without any assumption, for the normalizers
  on Latin-1 strings that the rest of the development uses, and these agree with the ones
  on code units wherever the runtime's \<^verbatim>\<open>toLowerCase\<close> acts on a Latin-1 string as
  written out in \<open>toLowerCase\<close>.
\<close>

theorem normalizeId_idempotent:
  assumes no_capital: "\<forall>s. list_all (\<lambda>c. \<not> isCapitalUnit c) (lower s)"
    and fixes_normal: "\<forall>s. list_all isNormUnit s \<longrightarrow> lower s = s"
  shows "normalizeIdUtf16 lower (Some (normalizeIdUtf16 lower u)) = normalizeIdUtf16 lower u
   \<and> cmNormalizeIdUtf16 lower sfx (Some (cmNormalizeIdUtf16 lower sfx u False)) False
       = cmNormalizeIdUtf16 lower sfx u False
   \<and> normalizeIdUtf16 lower None = [] \<and> normalizeIdUtf16 lower (Some []) = []
   \<and> cmNormalizeIdUtf16 lower sfx None False = [] \<and> cmNormalizeIdUtf16 lower sfx (Some []) False = []
   \<and> normalizeIdUtf16 lower (Some v) = filter keepUnit (lower v)
   \<and> cmNormalizeIdUtf16 lower sfx (Some v) False = filter keepUnit (lower v)
   \<and> trimUnits (normalizeIdUtf16 lower u) = normalizeIdUtf16 lower u
   \<and> list_all isNormUnit (normalizeIdUtf16 lower u)
   \<and> normalizeId (Some (normalizeId i)) = normalizeId i
   \<and> cmNormalizeId cfg (Some (cmNormalizeId cfg i False)) False = cmNormalizeId cfg i False
   \<and> normalizeId None = [] \<and> normalizeId (Some []) = []
   \<and> cmNormalizeId cfg None False = [] \<and> cmNormalizeId cfg (Some []) False = []
   \<and> normalizeId (Some s) = filter keepChar (toLowerCase s)
   \<and> cmNormalizeId cfg (Some s) False = filter keepChar (toLowerCase s)
   \<and> trim (normalizeId i) = normalizeId i
   \<and> list_all isNormChar (normalizeId i)
   \<and> (lower (map of_char s) = map of_char (toLowerCase s) \<longrightarrow>
        normalizeIdUtf16 lower (Some (map of_char s)) = map of_char (normalizeId (Some s)))"
proof -
  have cm16: "cmNormalizeIdUtf16 lower sfx x False = normalizeIdUtf16 lower x" for x
    by (simp add: cmNormalizeIdUtf16_def)
  have units: "\<forall>c\<in>set (normalizeIdUtf16 lower u). isNormUnit c"
    using normalizeIdUtf16_units [OF no_capital] by blast
  then have all16: "list_all isNormUnit (normalizeIdUtf16 lower u)"
    by (simp add: list_all_iff)
  have again16: "normalizeIdUtf16 lower (Some (normalizeIdUtf16 lower u)) = normalizeIdUtf16 lower u"
    using fixes_normal all16 by (rule normalizeIdUtf16_fixed)
  have empty16: "normalizeIdUtf16 lower (Some []) = []"
    using fixes_normal by (rule normalizeIdUtf16_fixed) simp
  have trim16: "trimUnits (normalizeIdUtf16 lower u) = normalizeIdUtf16 lower u"
    by (rule trimUnits_no_space) (use units in \<open>auto dest: norm_unit_keep keep_unit_not_space\<close>)
  have some16: "normalizeIdUtf16 lower (Some v) = filter keepUnit (lower v)"
    by (rule normalizeIdUtf16_Some)
  have part16: "normalizeIdUtf16 lower (Some (normalizeIdUtf16 lower u)) = normalizeIdUtf16 lower u
   \<and> cmNormalizeIdUtf16 lower sfx (Some (cmNormalizeIdUtf16 lower sfx u False)) False
       = cmNormalizeIdUtf16 lower sfx u False
   \<and> normalizeIdUtf16 lower None = [] \<and> normalizeIdUtf16 lower (Some []) = []
   \<and> cmNormalizeIdUtf16 lower sfx None False = [] \<and> cmNormalizeIdUtf16 lower sfx (Some []) False = []
   \<and> normalizeIdUtf16 lower (Some v) = filter keepUnit (lower v)
   \<and> cmNormalizeIdUtf16 lower sfx (Some v) False = filter keepUnit (lower v)
   \<and> trimUnits (normalizeIdUtf16 lower u) = normalizeIdUtf16 lower u
   \<and> list_all isNormUnit (normalizeIdUtf16 lower u)"
    using again16 empty16 trim16 all16 some16
    by (simp only: cm16 normalizeIdUtf16_None simp_thms)
  have chars: "\<forall>c\<in>set (normalizeId i). isNormChar c"
    by (auto dest: normalizeId_chars)
  have "trim (normalizeId i) = normalizeId i"
    by (rule trim_no_space) (use chars in \<open>auto dest: norm_not_space\<close>)
  moreover have "list_all isNormChar (normalizeId i)"
    using chars by (simp add: list_all_iff)
  moreover have "normalizeId (Some []) = []"
    by (simp add: normalizeId_Some toLowerCase_def)
  moreover have "normalizeId (Some s) = filter keepChar (toLowerCase s)"
    by (rule normalizeId_Some)
  ultimately have part8: "normalizeId (Some (normalizeId i)) = normalizeId i
   \<and> cmNormalizeId cfg (Some (cmNormalizeId cfg i False)) False = cmNormalizeId cfg i False
   \<and> normalizeId None = [] \<and> normalizeId (Some []) = []
   \<and> cmNormalizeId cfg None False = [] \<and> cmNormalizeId cfg (Some []) False = []
   \<and> normalizeId (Some s) = filter keepChar (toLowerCase s)
   \<and> cmNormalizeId cfg (Some s) False = filter keepChar (toLowerCase s)
   \<and> trim (normalizeId i) = normalizeId i
   \<and> list_all isNormChar (normalizeId i)"
    by (simp only: cmNormalizeId_plain normalizeId_again normalizeId_None simp_thms)
  have link: "lower (map of_char s) = map of_char (toLowerCase s) \<longrightarrow>
        normalizeIdUtf16 lower (Some (map of_char s)) = map of_char (normalizeId (Some s))"
    using latin1_instance by blast
  from part16 part8 link show ?thesis
    by (simp only: simp_thms)
qed

theorem normalizeId_idempotent_witness:
  "normalizeIdUtf16 sampleLower (Some [0x52, 0x130, 0x20, 0x212A, 0x31, 0x2E, 0x3000])
     = [0x72, 0x69, 0x6B, 0x31, 0x2E]
   \<and> normalizeIdUtf16 sampleLower
        (Some (normalizeIdUtf16 sampleLower (Some [0x52, 0x130, 0x20, 0x212A, 0x31, 0x2E, 0x3000])))
     = [0x72, 0x69, 0x6B, 0x31, 0x2E]
   \<and> normalizeId (Some ''Rai 1.HD'') = ''rai1.hd''
   \<and> normalizeId (Some (normalizeId (Some ''Rai 1.HD''))) = ''rai1.hd''
   \<and> cmNormalizeId None (Some (cmNormalizeId None (Some ''Rai 1.HD'') False)) False = ''rai1.hd''"
proof -
  have h1: "\<forall>s. list_all (\<lambda>c. \<not> isCapitalUnit c) (sampleLower s)"
    by (simp add: sampleLower_no_capital)
  have h2: "\<forall>s. list_all isNormUnit s \<longrightarrow> sampleLower s = s"
    by (simp add: sampleLower_fixes)
  have v16: "normalizeIdUtf16 sampleLower (Some [0x52, 0x130, 0x20, 0x212A, 0x31, 0x2E, 0x3000])
     = [0x72, 0x69, 0x6B, 0x31, 0x2E]"
    by code_simp
  have v8: "normalizeId (Some ''Rai 1.HD'') = ''rai1.hd''"
    by code_simp
  show ?thesis
    using normalizeId_idempotent [OF h1 h2,
        of "Some [0x52, 0x130, 0x20, 0x212A, 0x31, 0x2E, 0x3000]" None "[]" "Some ''Rai 1.HD''" None "[]"]
      v16 v8
    by (simp add: cmNormalizeId_plain)
qed

section \<open>Properties of the catalog store\<close>

lemma saveCacheToDB_frame:
  "cache (saveCacheToDB s) = cache s" "emitted (saveCacheToDB s) = emitted s"
  "transformCalls (saveCacheToDB s) = transformCalls s" "cm_config (saveCacheToDB s) = cm_config s"
  by (auto simp: saveCacheToDB_def cmSaveDatabase_def Let_def split: option.splits prod.splits)

text \<open>The queries read the snapshot only: none of them looks at the configuration, since
  they normalize without suffix removal.\<close>

lemma matchesIdOrTvg_plain:
  "matchesIdOrTvg cfg n =
     (\<lambda>ch. normalizeId (Some (replaceFirst (ch_id ch) ''tv|'' [])) = n \<or> normalizeId (ch_tvg_id ch) = n)"
  by (rule ext) (simp add: matchesIdOrTvg_def cmNormalizeId_plain)

lemma matchesName_plain: "matchesName cfg n = (\<lambda>ch. normalizeId (ch_name ch) = n)"
  by (rule ext) (simp add: matchesName_def cmNormalizeId_plain)

lemma getChannel_cache: "cache s' = cache s \<Longrightarrow> getChannel i s' = getChannel i s"
  by (simp add: getChannel_def cmNormalizeId_plain matchesIdOrTvg_plain matchesName_plain
        cong: option.case_cong)

lemma getChannelsByGenre_cache:
  "cache s' = cache s \<Longrightarrow> getChannelsByGenre g s' = getChannelsByGenre g s"
  by (simp add: getChannelsByGenre_def)

lemma searchChannels_cache: "cache s' = cache s \<Longrightarrow> searchChannels q s' = searchChannels q s"
  by (simp add: searchChannels_def cmNormalizeId_plain cong: option.case_cong if_cong)

lemma settle_transformCalls:
  "transformCalls (fst (rebuildCache_settle url now outcome s)) = transformCalls s"
  by (cases outcome) (simp_all add: rebuildCache_settle_def Let_def saveCacheToDB_frame)

text \<open>
  Claim C2. A rebuild that starts while none is in progress and whose transform fails
  rethrows the failure, leaves the in-progress flag cleared, emits \<^verbatim>\<open>cacheError\<close> with
  that failure, and leaves the cache object (channels, genres, lastUpdated), the database
  and its file as they were; so \<^verbatim>\<open>getChannel\<close>, \<^verbatim>\<open>getChannelsByGenre\<close> and
  \<^verbatim>\<open>searchChannels\<close> answer every question as before.
\<close>

theorem rebuildCache_failure_atomic:
  assumes idle: "\<not> updateInProgress (cache s)"
    and fails: "tr url (mergeConfig (cm_config s) cfg) = Inl e"
  shows "snd (rebuildCache tr now url cfg s) = Inl e
    \<and> updateInProgress (cache (fst (rebuildCache tr now url cfg s))) = False
    \<and> emitted (fst (rebuildCache tr now url cfg s)) = emitted s @ [CacheError e]
    \<and> cache (fst (rebuildCache tr now url cfg s)) = cache s
    \<and> cm_db (fst (rebuildCache tr now url cfg s)) = cm_db s
    \<and> cm_disk (fst (rebuildCache tr now url cfg s)) = cm_disk s
    \<and> getChannel i (fst (rebuildCache tr now url cfg s)) = getChannel i s
    \<and> getChannelsByGenre g (fst (rebuildCache tr now url cfg s)) = getChannelsByGenre g s
    \<and> searchChannels q (fst (rebuildCache tr now url cfg s)) = searchChannels q s"
proof -
  let ?s' = "fst (rebuildCache tr now url cfg s)"
  have r: "rebuildCache tr now url cfg s =
      (s\<lparr>cm_config := mergeConfig (cm_config s) cfg,
         transformCalls := transformCalls s @ [(url, mergeConfig (cm_config s) cfg)],
         emitted := emitted s @ [CacheError e]\<rparr>, Inl e)"
    using idle fails
    by (simp add: rebuildCache_def rebuildCache_begin_def rebuildCache_settle_def Let_def)
  have c: "cache ?s' = cache s" by (simp add: r)
  show ?thesis
    using c getChannel_cache [OF c] getChannelsByGenre_cache [OF c] searchChannels_cache [OF c] idle
    by (simp add: r)
qed

theorem rebuildCache_failure_atomic_witness:
  "snd (rebuildCache failingTransform 5000 (Some ''u'') None sampleCatalog)
     = Inl (ExternalFailure ''timeout'')
   \<and> emitted (fst (rebuildCache failingTransform 5000 (Some ''u'') None sampleCatalog))
     = [CacheError (ExternalFailure ''timeout'')]
   \<and> cache (fst (rebuildCache failingTransform 5000 (Some ''u'') None sampleCatalog)) = sampleCache
   \<and> getChannel (Some ''Beta'') (fst (rebuildCache failingTransform 5000 (Some ''u'') None sampleCatalog))
     = getChannel (Some ''Beta'') sampleCatalog"
proof -
  have idle: "\<not> updateInProgress (cache sampleCatalog)"
    by (simp add: sampleCatalog_def sampleCache_def)
  have fails: "failingTransform (Some ''u'') (mergeConfig (cm_config sampleCatalog) None)
      = Inl (ExternalFailure ''timeout'')"
    by (simp add: failingTransform_def)
  show ?thesis
    using rebuildCache_failure_atomic [where s = sampleCatalog and tr = failingTransform
        and url = "Some ''u''" and cfg = None and e = "ExternalFailure ''timeout''"
        and now = 5000 and i = "Some ''Beta''"] idle fails
    by (simp add: sampleCatalog_def)
qed

text \<open>
  Claim C3. A call of \<^verbatim>\<open>rebuildCache\<close> that finds the in-progress flag set does not reach
  the transform and returns with the whole state (snapshot, database, file, events,
  transform calls) as it was; so does a call of \<^verbatim>\<open>startEPGUpdate\<close> that finds
  \<^verbatim>\<open>isUpdating\<close> set (no fetch, no change of the tables). Hence, of two overlapping
  rebuilds, the second, arriving while the first is suspended at the transform, is
  skipped, and when the first settles the transform has been called exactly once more
  than before.
\<close>

theorem single_flight_guard:
  "(updateInProgress (cache s) \<longrightarrow>
      rebuildCache_begin url cfg s = None \<and> rebuildCache tr now url cfg s = (s, Inr ()))
   \<and> (isUpdating g \<longrightarrow> startEPGUpdate env u g = g)
   \<and> (\<not> updateInProgress (cache s) \<longrightarrow>
        (\<exists>s1. rebuildCache_begin url cfg s = Some s1
           \<and> transformCalls s1 = transformCalls s @ [(url, mergeConfig (cm_config s) cfg)]
           \<and> rebuildCache_begin url2 cfg2 s1 = None
           \<and> rebuildCache tr2 now2 url2 cfg2 s1 = (s1, Inr ())
           \<and> transformCalls (fst (rebuildCache_settle url now outcome s1))
               = transformCalls s @ [(url, mergeConfig (cm_config s) cfg)]))"
proof (intro conjI impI)
  assume busy: "updateInProgress (cache s)"
  then show "rebuildCache_begin url cfg s = None"
    by (simp add: rebuildCache_begin_def)
  then show "rebuildCache tr now url cfg s = (s, Inr ())"
    by (simp add: rebuildCache_def)
next
  assume "isUpdating g"
  then show "startEPGUpdate env u g = g"
    by (simp add: startEPGUpdate_def)
next
  assume idle: "\<not> updateInProgress (cache s)"
  define s1 where "s1 = s\<lparr>cache := (cache s)\<lparr>updateInProgress := True\<rparr>,
      cm_config := mergeConfig (cm_config s) cfg,
      transformCalls := transformCalls s @ [(url, mergeConfig (cm_config s) cfg)]\<rparr>"
  have b: "rebuildCache_begin url cfg s = Some s1"
    using idle by (simp add: rebuildCache_begin_def Let_def s1_def)
  have t: "transformCalls s1 = transformCalls s @ [(url, mergeConfig (cm_config s) cfg)]"
    by (simp add: s1_def)
  have busy: "updateInProgress (cache s1)"
    by (simp add: s1_def)
  have n: "rebuildCache_begin url2 cfg2 s1 = None"
    using busy by (simp add: rebuildCache_begin_def)
  have r: "rebuildCache tr2 now2 url2 cfg2 s1 = (s1, Inr ())"
    using n by (simp add: rebuildCache_def)
  show "\<exists>s1. rebuildCache_begin url cfg s = Some s1
           \<and> transformCalls s1 = transformCalls s @ [(url, mergeConfig (cm_config s) cfg)]
           \<and> rebuildCache_begin url2 cfg2 s1 = None
           \<and> rebuildCache tr2 now2 url2 cfg2 s1 = (s1, Inr ())
           \<and> transformCalls (fst (rebuildCache_settle url now outcome s1))
               = transformCalls s @ [(url, mergeConfig (cm_config s) cfg)]"
    using b t n r by (simp add: settle_transformCalls)
qed

theorem single_flight_guard_witness:
  "rebuildCache failingTransform 5000 (Some ''v'') None
      (sampleCatalog\<lparr>cache := sampleCache\<lparr>updateInProgress := True\<rparr>\<rparr>)
     = (sampleCatalog\<lparr>cache := sampleCache\<lparr>updateInProgress := True\<rparr>\<rparr>, Inr ())
   \<and> startEPGUpdate sampleEnv (UrlString ''http://example.org/guide.xml'') (sampleGuide\<lparr>isUpdating := True\<rparr>)
     = sampleGuide\<lparr>isUpdating := True\<rparr>
   \<and> rebuildCache_begin (Some ''v'') None (the (rebuildCache_begin (Some ''u'') None sampleCatalog)) = None
   \<and> transformCalls (fst (rebuildCache_settle (Some ''u'') 5000 (Inl TypeError)
        (the (rebuildCache_begin (Some ''u'') None sampleCatalog)))) = [(Some ''u'', None)]"
proof -
  have busy: "updateInProgress (cache (sampleCatalog\<lparr>cache := sampleCache\<lparr>updateInProgress := True\<rparr>\<rparr>))"
    by simp
  have upd: "isUpdating (sampleGuide\<lparr>isUpdating := True\<rparr>)"
    by simp
  have idle: "\<not> updateInProgress (cache sampleCatalog)"
    by (simp add: sampleCatalog_def sampleCache_def)
  have m: "mergeConfig (cm_config sampleCatalog) None = None" "transformCalls sampleCatalog = []"
    by (simp_all add: mergeConfig_def sampleCatalog_def)
  from single_flight_guard [of "sampleCatalog\<lparr>cache := sampleCache\<lparr>updateInProgress := True\<rparr>\<rparr>"
      "Some ''v''" None failingTransform 5000 "sampleGuide\<lparr>isUpdating := True\<rparr>" sampleEnv
      "UrlString ''http://example.org/guide.xml''"] busy upd
  have a: "rebuildCache failingTransform 5000 (Some ''v'') None
      (sampleCatalog\<lparr>cache := sampleCache\<lparr>updateInProgress := True\<rparr>\<rparr>)
     = (sampleCatalog\<lparr>cache := sampleCache\<lparr>updateInProgress := True\<rparr>\<rparr>, Inr ())"
    and b: "startEPGUpdate sampleEnv (UrlString ''http://example.org/guide.xml'') (sampleGuide\<lparr>isUpdating := True\<rparr>)
     = sampleGuide\<lparr>isUpdating := True\<rparr>"
    by blast+
  from single_flight_guard [of sampleCatalog "Some ''u''" None failingTransform 5000 sampleGuide sampleEnv
      UrlAbsent "Some ''v''" None failingTransform 5000 "Inl TypeError"] idle
  obtain s1 where "rebuildCache_begin (Some ''u'') None sampleCatalog = Some s1"
    "rebuildCache_begin (Some ''v'') None s1 = None"
    "transformCalls (fst (rebuildCache_settle (Some ''u'') 5000 (Inl TypeError) s1)) = [(Some ''u'', None)]"
    unfolding m by auto
  then show ?thesis using a b by simp
qed


lemma find_first_index:
  "find P xs = Some x \<longleftrightarrow> (\<exists>k<length xs. xs ! k = x \<and> P x \<and> (\<forall>j<k. \<not> P (xs ! j)))"
  by (auto simp: find_Some_iff)

text \<open>
  Claim C8, as the code has it. \<^verbatim>\<open>getChannel\<close> has two tiers, not three. For a
  non-empty id and an existing snapshot it returns the first channel, in list order,
  whose normalized id (after the first occurrence of \<^verbatim>\<open>tv|\<close> is removed) or whose
  normalized guide-linkage id equals the normalized search id; only when no channel
  matches in either of these two ways, the first channel whose normalized name equals
  it; and nothing exactly when no channel matches by id, guide-linkage id or name.
  Between a match by id and a match by guide-linkage id the position in the list decides.
\<close>

theorem getChannel_two_tiers:
  assumes "truthy i" and "stremioData (cache s) = Some sd"
  shows "(getChannel i s = Some ch \<longleftrightarrow>
      (\<exists>k<length (channels sd). channels sd ! k = ch
          \<and> (normalizeId (Some (replaceFirst (ch_id ch) ''tv|'' [])) = normalizeId i
               \<or> normalizeId (ch_tvg_id ch) = normalizeId i)
          \<and> (\<forall>j<k. \<not> matchesIdOrTvg (cm_config s) (normalizeId i) (channels sd ! j)))
      \<or> ((\<forall>c\<in>set (channels sd). \<not> matchesIdOrTvg (cm_config s) (normalizeId i) c)
          \<and> (\<exists>k<length (channels sd). channels sd ! k = ch
                \<and> normalizeId (ch_name ch) = normalizeId i
                \<and> (\<forall>j<k. normalizeId (ch_name (channels sd ! j)) \<noteq> normalizeId i))))
    \<and> (getChannel i s = None \<longleftrightarrow>
         (\<forall>c\<in>set (channels sd).
            normalizeId (Some (replaceFirst (ch_id c) ''tv|'' [])) \<noteq> normalizeId i
            \<and> normalizeId (ch_tvg_id c) \<noteq> normalizeId i
            \<and> normalizeId (ch_name c) \<noteq> normalizeId i))"
proof -
  let ?P = "matchesIdOrTvg (cm_config s) (normalizeId i)"
  let ?Q = "matchesName (cm_config s) (normalizeId i)"
  let ?cs = "channels sd"
  have g: "getChannel i s = (case find ?P ?cs of Some c \<Rightarrow> Some c | None \<Rightarrow> find ?Q ?cs)"
    using assms by (simp add: getChannel_def cmNormalizeId_plain Let_def)
  have P: "?P c \<longleftrightarrow> normalizeId (Some (replaceFirst (ch_id c) ''tv|'' [])) = normalizeId i
      \<or> normalizeId (ch_tvg_id c) = normalizeId i" for c
    by (simp add: matchesIdOrTvg_plain)
  have Q: "?Q c \<longleftrightarrow> normalizeId (ch_name c) = normalizeId i" for c
    by (simp add: matchesName_plain)
  have tier1: "find ?P ?cs = Some ch \<longleftrightarrow>
      (\<exists>k<length ?cs. ?cs ! k = ch
          \<and> (normalizeId (Some (replaceFirst (ch_id ch) ''tv|'' [])) = normalizeId i
               \<or> normalizeId (ch_tvg_id ch) = normalizeId i)
          \<and> (\<forall>j<k. \<not> ?P (?cs ! j)))"
    unfolding find_first_index P [symmetric] ..
  have tier2: "find ?Q ?cs = Some ch \<longleftrightarrow>
      (\<exists>k<length ?cs. ?cs ! k = ch \<and> normalizeId (ch_name ch) = normalizeId i
          \<and> (\<forall>j<k. normalizeId (ch_name (?cs ! j)) \<noteq> normalizeId i))"
    unfolding find_first_index Q [symmetric] ..
  have none1: "find ?P ?cs = None \<longleftrightarrow> (\<forall>c\<in>set ?cs. \<not> ?P c)"
    by (auto simp: find_None_iff)
  have none2: "find ?Q ?cs = None \<longleftrightarrow> (\<forall>c\<in>set ?cs. normalizeId (ch_name c) \<noteq> normalizeId i)"
    by (auto simp: find_None_iff Q)
  have some: "getChannel i s = Some ch \<longleftrightarrow>
      find ?P ?cs = Some ch \<or> (find ?P ?cs = None \<and> find ?Q ?cs = Some ch)"
    unfolding g by (cases "find ?P ?cs") auto
  have none: "getChannel i s = None \<longleftrightarrow> find ?P ?cs = None \<and> find ?Q ?cs = None"
    unfolding g by (cases "find ?P ?cs") auto
  have part1: "getChannel i s = Some ch \<longleftrightarrow>
      (\<exists>k<length ?cs. ?cs ! k = ch
          \<and> (normalizeId (Some (replaceFirst (ch_id ch) ''tv|'' [])) = normalizeId i
               \<or> normalizeId (ch_tvg_id ch) = normalizeId i)
          \<and> (\<forall>j<k. \<not> ?P (?cs ! j)))
      \<or> ((\<forall>c\<in>set ?cs. \<not> ?P c)
          \<and> (\<exists>k<length ?cs. ?cs ! k = ch \<and> normalizeId (ch_name ch) = normalizeId i
                \<and> (\<forall>j<k. normalizeId (ch_name (?cs ! j)) \<noteq> normalizeId i)))"
    unfolding some tier1 tier2 none1 ..
  have part2: "getChannel i s = None \<longleftrightarrow>
         (\<forall>c\<in>set ?cs.
            normalizeId (Some (replaceFirst (ch_id c) ''tv|'' [])) \<noteq> normalizeId i
            \<and> normalizeId (ch_tvg_id c) \<noteq> normalizeId i
            \<and> normalizeId (ch_name c) \<noteq> normalizeId i)"
    unfolding none none1 none2 P by blast
  show ?thesis
    using part1 part2 by (rule conjI)
qed

theorem getChannel_two_tiers_witness:
  "truthy (Some ''b'') \<and> truthy (Some ''zzz'')
   \<and> getChannel (Some ''b'') sampleCatalog = Some sampleChannelA
   \<and> getChannel (Some ''zzz'') sampleCatalog = None"
proof -
  let ?sd = "\<lparr>channels = [sampleChannelA, sampleChannelB], genres = [''news'', ''sport''],
              epgUrls = None\<rparr>"
  have sd: "stremioData (cache sampleCatalog) = Some ?sd"
    by (simp add: sampleCatalog_def sampleCache_def)
  have t: "truthy (Some ''b'')" "truthy (Some ''zzz'')"
    by (simp_all add: truthy_def)
  have n: "normalizeId (ch_tvg_id sampleChannelA) = normalizeId (Some ''b'')"
    "normalizeId (Some (replaceFirst (ch_id sampleChannelA) ''tv|'' [])) \<noteq> normalizeId (Some ''zzz'')"
    "normalizeId (Some (replaceFirst (ch_id sampleChannelB) ''tv|'' [])) \<noteq> normalizeId (Some ''zzz'')"
    "normalizeId (ch_tvg_id sampleChannelA) \<noteq> normalizeId (Some ''zzz'')"
    "normalizeId (ch_tvg_id sampleChannelB) \<noteq> normalizeId (Some ''zzz'')"
    "normalizeId (ch_name sampleChannelA) \<noteq> normalizeId (Some ''zzz'')"
    "normalizeId (ch_name sampleChannelB) \<noteq> normalizeId (Some ''zzz'')"
    by code_simp+
  have "\<exists>k<length (channels ?sd). channels ?sd ! k = sampleChannelA
          \<and> (normalizeId (Some (replaceFirst (ch_id sampleChannelA) ''tv|'' [])) = normalizeId (Some ''b'')
               \<or> normalizeId (ch_tvg_id sampleChannelA) = normalizeId (Some ''b''))
          \<and> (\<forall>j<k. \<not> matchesIdOrTvg (cm_config sampleCatalog) (normalizeId (Some ''b''))
                       (channels ?sd ! j))"
    using n(1) by (intro exI [of _ 0]) simp
  then have a: "getChannel (Some ''b'') sampleCatalog = Some sampleChannelA"
    using getChannel_two_tiers [OF t(1) sd, of sampleChannelA] by blast
  have "\<forall>c\<in>set (channels ?sd).
            normalizeId (Some (replaceFirst (ch_id c) ''tv|'' [])) \<noteq> normalizeId (Some ''zzz'')
            \<and> normalizeId (ch_tvg_id c) \<noteq> normalizeId (Some ''zzz'')
            \<and> normalizeId (ch_name c) \<noteq> normalizeId (Some ''zzz'')"
    using n by simp
  then have b: "getChannel (Some ''zzz'') sampleCatalog = None"
    using getChannel_two_tiers [OF t(2) sd, of sampleChannelA] by blast
  show ?thesis
    using t a b by simp
qed

text \<open>
  Claim C8 as stated fails: in the sample catalog the id \<open>b\<close> matches the first channel
  only by its guide-linkage id and the second channel by its id, and \<^verbatim>\<open>getChannel\<close>
  returns the first.
\<close>

theorem getChannel_tier_counterexample:
  "getChannel (Some ''b'') sampleCatalog = Some sampleChannelA
   \<and> normalizeId (Some (replaceFirst (ch_id sampleChannelA) ''tv|'' [])) \<noteq> normalizeId (Some ''b'')
   \<and> normalizeId (ch_tvg_id sampleChannelA) = normalizeId (Some ''b'')
   \<and> normalizeId (Some (replaceFirst (ch_id sampleChannelB) ''tv|'' [])) = normalizeId (Some ''b'')
   \<and> normalizeId (ch_tvg_id sampleChannelB) \<noteq> normalizeId (Some ''b'')
   \<and> stremioData (cache sampleCatalog)
       = Some \<lparr>channels = [sampleChannelA, sampleChannelB], genres = [''news'', ''sport''], epgUrls = None\<rparr>"
  by code_simp

section \<open>Properties of guide ingestion\<close>

text \<open>When one programme yields a row: exactly the conditions of the loop body.\<close>

lemma ingestProgramme_Some_iff:
  "ingestProgramme nd now p = Inr (Some r) \<longleftrightarrow>
     (\<exists>a. p_attrs p = Some a
        \<and> parseEPGDate nd (a_start a) = Some (start_time r)
        \<and> parseEPGDate nd (a_stop a) = Some (stop_time r)
        \<and> now - oneHour \<le> stop_time r \<and> start_time r \<le> now + sevenDays
        \<and> channel_id r = normalizeId (a_channel a)
        \<and> extractText (p_title p) ''Nessun Titolo'' = Inr (title r)
        \<and> extractText (p_desc p) [] = Inr (description r)
        \<and> extractText (p_category p) [] = Inr (category r))"
  by (cases r) (auto simp: ingestProgramme_def Let_def split: option.splits sum.splits)

lemma ingestProgramme_inWindow: "ingestProgramme nd now p = Inr (Some r) \<Longrightarrow> inWindow now r"
  by (auto simp: ingestProgramme_Some_iff inWindow_def)

lemma ingestChunk_rows:
  "ingestChunk nd now ps rows = (rows', e) \<Longrightarrow>
     \<exists>added. rows' = rows @ added
       \<and> (\<forall>r\<in>set added. \<exists>p\<in>set ps. ingestProgramme nd now p = Inr (Some r))"
proof (induction ps arbitrary: rows)
  case Nil
  then show ?case by simp
next
  case (Cons p ps)
  show ?case
  proof (cases "ingestProgramme nd now p")
    case (Inl x)
    with Cons.prems show ?thesis by simp
  next
    case (Inr o1)
    show ?thesis
    proof (cases o1)
      case None
      with Inr Cons.prems have "ingestChunk nd now ps rows = (rows', e)" by simp
      from Cons.IH [OF this] show ?thesis by auto
    next
      case (Some r)
      with Inr Cons.prems have "ingestChunk nd now ps (rows @ [r]) = (rows', e)" by simp
      from Cons.IH [OF this] obtain added where
        a: "rows' = (rows @ [r]) @ added"
          "\<forall>x\<in>set added. \<exists>p\<in>set ps. ingestProgramme nd now p = Inr (Some x)"
        by blast
      have "rows' = rows @ (r # added)" using a(1) by simp
      moreover have "\<forall>x\<in>set (r # added). \<exists>q\<in>set (p # ps). ingestProgramme nd now q = Inr (Some x)"
        using a(2) Inr Some by auto
      ultimately show ?thesis by blast
    qed
  qed
qed

lemma ingestChunk_complete:
  "ingestChunk nd now ps rows = (rows', None) \<Longrightarrow> p \<in> set ps \<Longrightarrow>
     ingestProgramme nd now p = Inr (Some r) \<Longrightarrow> r \<in> set rows'"
proof (induction ps arbitrary: rows)
  case Nil
  then show ?case by simp
next
  case (Cons q ps)
  show ?case
  proof (cases "ingestProgramme nd now q")
    case (Inl x)
    with Cons.prems show ?thesis by simp
  next
    case (Inr o1)
    show ?thesis
    proof (cases o1)
      case None
      with Inr Cons.prems have c: "ingestChunk nd now ps rows = (rows', None)" and "p \<in> set ps"
        by auto
      then show ?thesis using Cons.IH Cons.prems(3) by blast
    next
      case (Some x)
      with Inr Cons.prems have c: "ingestChunk nd now ps (rows @ [x]) = (rows', None)" by simp
      show ?thesis
      proof (cases "p = q")
        case True
        then have "x = r" using Inr Some Cons.prems(3) by simp
        moreover from ingestChunk_rows [OF c] have "x \<in> set rows'" by auto
        ultimately show ?thesis by simp
      next
        case False
        then have "p \<in> set ps" using Cons.prems(2) by simp
        then show ?thesis using Cons.IH [OF c] Cons.prems(3) by blast
      qed
    qed
  qed
qed

lemma ingestChunk_append:
  "ingestChunk nd now (xs @ ys) rows =
     (case ingestChunk nd now xs rows of
        (rows', Some e) \<Rightarrow> (rows', Some e)
      | (rows', None) \<Rightarrow> ingestChunk nd now ys rows')"
  by (induction xs arbitrary: rows) (auto split: sum.splits option.splits prod.splits)

lemma ingestChunk_take_drop:
  "ingestChunk nd now (drop i progs) rows =
     (case ingestChunk nd now (take n (drop i progs)) rows of
        (rows', Some e) \<Rightarrow> (rows', Some e)
      | (rows', None) \<Rightarrow> ingestChunk nd now (drop (i + n) progs) rows')"
proof -
  have "take n (drop i progs) @ drop (i + n) progs = drop i progs"
    by (metis append_take_drop_id drop_drop add.commute)
  then have "ingestChunk nd now (drop i progs) rows
      = ingestChunk nd now (take n (drop i progs) @ drop (i + n) progs) rows"
    by simp
  then show ?thesis
    by (simp only: ingestChunk_append)
qed

lemma ingestFrom_flat: "ingestFrom nd now progs i rows = ingestChunk nd now (drop i progs) rows"
proof (induction nd now progs i rows rule: ingestFrom.induct)
  case (1 nd now progs i rows)
  show ?case
  proof (cases "i < length progs")
    case False
    then show ?thesis by (simp add: ingestFrom.simps [of nd now progs i rows])
  next
    case True
    obtain rows' e where c: "ingestChunk nd now (take CHUNK_SIZE (drop i progs)) rows = (rows', e)"
      by (cases "ingestChunk nd now (take CHUNK_SIZE (drop i progs)) rows")
    show ?thesis
    proof (cases e)
      case None
      with True c "1.IH"
      have "ingestFrom nd now progs i rows = ingestChunk nd now (drop (i + CHUNK_SIZE) progs) rows'"
        by (simp add: ingestFrom.simps [of nd now progs i rows])
      also have "\<dots> = ingestChunk nd now (drop i progs) rows"
        using c None by (simp add: ingestChunk_take_drop [of nd now i progs rows CHUNK_SIZE])
      finally show ?thesis .
    next
      case (Some x)
      with True c have "ingestFrom nd now progs i rows = (rows', Some x)"
        by (simp add: ingestFrom.simps [of nd now progs i rows])
      also have "\<dots> = ingestChunk nd now (drop i progs) rows"
        using c Some by (simp add: ingestChunk_take_drop [of nd now i progs rows CHUNK_SIZE])
      finally show ?thesis .
    qed
  qed
qed

text \<open>The ways \<^verbatim>\<open>processEPGInChunks\<close> can end when there is a database.\<close>

lemma processEPG_cases:
  assumes db: "epg_db s = Some d"
  obtains
    (untouched) "fst (processEPGInChunks nd now tv s) = s" "snd (processEPGInChunks nd now tv s) = None"
  | (icons) icons e where
      "fst (processEPGInChunks nd now tv s) = s\<lparr>epg_db := Some (d\<lparr>channel_icons := icons\<rparr>)\<rparr>"
      "snd (processEPGInChunks nd now tv s) = e"
  | (aborted) t progs icons rows e where "tv = Some t" "tv_programme t = Some progs"
      "ingestChunk nd now progs (programs d) = (rows, Some e)"
      "fst (processEPGInChunks nd now tv s)
         = s\<lparr>epg_db := Some (d\<lparr>channel_icons := icons, programs := rows\<rparr>)\<rparr>"
      "snd (processEPGInChunks nd now tv s) = Some e"
  | (stored) t progs icons rows where "tv = Some t" "tv_programme t = Some progs"
      "ingestChunk nd now progs (programs d) = (rows, None)"
      "fst (processEPGInChunks nd now tv s)
         = s\<lparr>epg_db := Some (d\<lparr>channel_icons := icons, programs := rows\<rparr>),
              epg_disk := Some (d\<lparr>channel_icons := icons, programs := rows\<rparr>)\<rparr>"
      "snd (processEPGInChunks nd now tv s) = None"
proof (cases tv)
  case None
  then have "processEPGInChunks nd now tv s = (s, None)"
    by (simp add: processEPGInChunks_def)
  then show ?thesis using untouched by simp
next
  case (Some t)
  obtain icons e1 where ic: "(case tv_channel t of
                         None \<Rightarrow> (channel_icons d, None)
                       | Some cs \<Rightarrow> ingestIcons cs (channel_icons d)) = (icons, e1)"
    by (cases "(case tv_channel t of
                         None \<Rightarrow> (channel_icons d, None)
                       | Some cs \<Rightarrow> ingestIcons cs (channel_icons d))")
  show ?thesis
  proof (cases e1)
    case (Some e)
    then have "processEPGInChunks nd now tv s = (s\<lparr>epg_db := Some (d\<lparr>channel_icons := icons\<rparr>)\<rparr>, Some e)"
      using \<open>tv = Some t\<close> db ic by (simp add: processEPGInChunks_def)
    then show ?thesis using icons by simp
  next
    case None
    note e1 = this
    show ?thesis
    proof (cases "tv_programme t")
      case None
      then have "processEPGInChunks nd now tv s = (s\<lparr>epg_db := Some (d\<lparr>channel_icons := icons\<rparr>)\<rparr>, None)"
        using \<open>tv = Some t\<close> db ic e1 by (simp add: processEPGInChunks_def)
      then show ?thesis using icons by simp
    next
      case (Some progs)
      obtain rows e2 where c: "ingestChunk nd now progs (programs d) = (rows, e2)"
        by (cases "ingestChunk nd now progs (programs d)")
      show ?thesis
      proof (cases e2)
        case None
        then have "processEPGInChunks nd now tv s
            = (s\<lparr>epg_db := Some (d\<lparr>channel_icons := icons, programs := rows\<rparr>),
              epg_disk := Some (d\<lparr>channel_icons := icons, programs := rows\<rparr>)\<rparr>, None)"
          using \<open>tv = Some t\<close> db ic e1 Some c
          by (simp add: processEPGInChunks_def ingestFrom_flat epgSaveDatabase_def Let_def)
        then show ?thesis using stored [OF \<open>tv = Some t\<close> Some] c None by simp
      next
        case (Some e)
        then have "processEPGInChunks nd now tv s
            = (s\<lparr>epg_db := Some (d\<lparr>channel_icons := icons, programs := rows\<rparr>)\<rparr>, Some e)"
          using \<open>tv = Some t\<close> db ic e1 \<open>tv_programme t = Some progs\<close> c
          by (simp add: processEPGInChunks_def ingestFrom_flat Let_def)
        then show ?thesis using aborted [OF \<open>tv = Some t\<close> \<open>tv_programme t = Some progs\<close>] c Some by simp
      qed
    qed
  qed
qed

lemma processEPG_appends:
  assumes db: "epg_db s = Some d"
  shows "\<exists>d' added. epg_db (fst (processEPGInChunks nd now tv s)) = Some d'
      \<and> programs d' = programs d @ added
      \<and> (\<forall>r\<in>set added. inWindow now r)"
  using db
proof (cases rule: processEPG_cases [where nd = nd and now = now and tv = tv])
  case untouched
  then show ?thesis using db by simp
next
  case (icons icons e)
  then show ?thesis by simp
next
  case (aborted t progs icons rows e)
  from ingestChunk_rows [OF aborted(3)] obtain added where
    "rows = programs d @ added" "\<forall>r\<in>set added. \<exists>p\<in>set progs. ingestProgramme nd now p = Inr (Some r)"
    by blast
  then show ?thesis using aborted(4) by (auto dest: ingestProgramme_inWindow)
next
  case (stored t progs icons rows)
  from ingestChunk_rows [OF stored(3)] obtain added where
    "rows = programs d @ added" "\<forall>r\<in>set added. \<exists>p\<in>set progs. ingestProgramme nd now p = Inr (Some r)"
    by blast
  then show ?thesis using stored(4) by (auto dest: ingestProgramme_inWindow)
qed

lemma processEPG_done:
  assumes db: "epg_db s = Some d" and progs: "tv_programme t = Some progs"
    and fin: "snd (processEPGInChunks nd now (Some t) s) = None"
  shows "\<exists>rows. programs (the (epg_db (fst (processEPGInChunks nd now (Some t) s)))) = rows
      \<and> ingestChunk nd now progs (programs d) = (rows, None)"
proof -
  obtain icons e1 where ic: "(case tv_channel t of
                         None \<Rightarrow> (channel_icons d, None)
                       | Some cs \<Rightarrow> ingestIcons cs (channel_icons d)) = (icons, e1)"
    by (cases "(case tv_channel t of
                         None \<Rightarrow> (channel_icons d, None)
                       | Some cs \<Rightarrow> ingestIcons cs (channel_icons d))")
  obtain rows e2 where c: "ingestChunk nd now progs (programs d) = (rows, e2)"
    by (cases "ingestChunk nd now progs (programs d)")
  have e1: "e1 = None"
  proof (cases e1)
    case (Some e)
    then have "snd (processEPGInChunks nd now (Some t) s) = Some e"
      using db ic by (simp add: processEPGInChunks_def)
    with fin show ?thesis by simp
  qed simp
  have e2: "e2 = None"
  proof (cases e2)
    case (Some e)
    then have "snd (processEPGInChunks nd now (Some t) s) = Some e"
      using db ic e1 progs c by (simp add: processEPGInChunks_def ingestFrom_flat Let_def)
    with fin show ?thesis by simp
  qed simp
  have "programs (the (epg_db (fst (processEPGInChunks nd now (Some t) s)))) = rows"
    using db ic e1 progs c e2
    by (simp add: processEPGInChunks_def ingestFrom_flat Let_def epgSaveDatabase_def)
  then show ?thesis using c e2 by simp
qed

text \<open>
  Claim C4, as the code has it. Ingestion never compares start with stop. When
  \<^verbatim>\<open>processEPGInChunks\<close> runs to its end, the stored rows are the rows stored before
  together with one row for each programme whose start and stop parse, whose stop is
  not before \<open>now - 1h\<close>, whose start is not after \<open>now + 7d\<close> and whose texts can be
  bound; nothing is said about the order of start and stop, and a programme in the
  window is stored also when its start is not before its stop.
\<close>

theorem ingestion_window_only:
  assumes db: "epg_db s = Some d" and progs: "tv_programme t = Some progs"
    and fin: "snd (processEPGInChunks nd now (Some t) s) = None"
  shows "r \<in> set (programs (the (epg_db (fst (processEPGInChunks nd now (Some t) s))))) \<longleftrightarrow>
    r \<in> set (programs d)
    \<or> (\<exists>p\<in>set progs. \<exists>a. p_attrs p = Some a
        \<and> parseEPGDate nd (a_start a) = Some (start_time r)
        \<and> parseEPGDate nd (a_stop a) = Some (stop_time r)
        \<and> now - oneHour \<le> stop_time r \<and> start_time r \<le> now + sevenDays
        \<and> channel_id r = normalizeId (a_channel a)
        \<and> extractText (p_title p) ''Nessun Titolo'' = Inr (title r)
        \<and> extractText (p_desc p) [] = Inr (description r)
        \<and> extractText (p_category p) [] = Inr (category r))"
proof -
  from processEPG_done [OF db progs fin]
  have "\<exists>rows. programs (the (epg_db (fst (processEPGInChunks nd now (Some t) s)))) = rows
      \<and> ingestChunk nd now progs (programs d) = (rows, None)" .
  then obtain rows where
    rows: "programs (the (epg_db (fst (processEPGInChunks nd now (Some t) s)))) = rows"
    and c: "ingestChunk nd now progs (programs d) = (rows, None)"
    by blast
  from ingestChunk_rows [OF c] obtain added where
    a: "rows = programs d @ added"
      "\<forall>r\<in>set added. \<exists>p\<in>set progs. ingestProgramme nd now p = Inr (Some r)"
    by blast
  have "r \<in> set rows \<longleftrightarrow>
      r \<in> set (programs d) \<or> (\<exists>p\<in>set progs. ingestProgramme nd now p = Inr (Some r))"
  proof
    assume "r \<in> set rows"
    then show "r \<in> set (programs d) \<or> (\<exists>p\<in>set progs. ingestProgramme nd now p = Inr (Some r))"
      using a by auto
  next
    assume "r \<in> set (programs d) \<or> (\<exists>p\<in>set progs. ingestProgramme nd now p = Inr (Some r))"
    then show "r \<in> set rows"
      using a(1) ingestChunk_complete [OF c] by auto
  qed
  then show ?thesis
    unfolding rows ingestProgramme_Some_iff .
qed

theorem ingestion_window_only_witness:
  "\<lparr>channel_id = ''rai1'', start_time = 1767268800000, stop_time = 1767265200000,
      title = ''Inverted'', description = [], category = []\<rparr>
     \<in> set (programs (the (epg_db (fst (processEPGInChunks sampleNewDate sampleNow (Some sampleTv) sampleGuide)))))
   \<and> \<lparr>channel_id = ''rai1'', start_time = 1767254400000, stop_time = 1767254400000,
      title = ''Old'', description = [], category = []\<rparr>
     \<notin> set (programs (the (epg_db (fst (processEPGInChunks sampleNewDate sampleNow (Some sampleTv) sampleGuide)))))"
proof -
  let ?inv = "\<lparr>channel_id = ''rai1'', start_time = 1767268800000, stop_time = 1767265200000,
      title = ''Inverted'', description = [], category = []\<rparr>"
  let ?old = "\<lparr>channel_id = ''rai1'', start_time = 1767254400000, stop_time = 1767254400000,
      title = ''Old'', description = [], category = []\<rparr>"
  let ?progs = "[sampleProgramme ''Rai 1'' ''20260101100000 +0000'' ''20260101110000 +0000'' ''News'',
         sampleProgramme ''Rai 1'' ''20260101120000 +0000'' ''20260101110000 +0000'' ''Inverted'',
         sampleProgramme ''Rai 1'' ''20260101080000 +0000'' ''20260101080000 +0000'' ''Old'',
         sampleProgramme ''Rai 1'' ''20260101110000 +0000'' ''20260101120000 +0000'' ''Film'']"
  have db: "epg_db sampleGuide = Some \<lparr>programs = [], channel_icons = Map.empty\<rparr>"
    by (simp add: sampleGuide_def)
  have progs: "tv_programme sampleTv = Some ?progs"
    by (simp add: sampleTv_def)
  have fin: "snd (processEPGInChunks sampleNewDate sampleNow (Some sampleTv) sampleGuide) = None"
    by code_simp
  have a: "?inv \<in> set (programs (the (epg_db (fst (processEPGInChunks sampleNewDate sampleNow (Some sampleTv) sampleGuide)))))"
    by code_simp
  have b: "?old \<notin> set (programs (the (epg_db (fst (processEPGInChunks sampleNewDate sampleNow (Some sampleTv) sampleGuide)))))"
    by code_simp
  from ingestion_window_only [OF db progs fin, of ?inv] a b show ?thesis
    by simp
qed

text \<open>
  Claim C4 as stated fails: the sample document holds a programme from 12:00 to 11:00;
  at 10:15 it lies in the window and ingestion stores it, with its start after its stop.
\<close>

theorem ingestion_order_counterexample:
  "programs (the (epg_db (fst (processEPGInChunks sampleNewDate sampleNow (Some sampleTv) sampleGuide)))) ! 1
     = \<lparr>channel_id = ''rai1'', start_time = 1767268800000, stop_time = 1767265200000,
        title = ''Inverted'', description = [], category = []\<rparr>
   \<and> \<not> start_time (programs (the (epg_db (fst (processEPGInChunks sampleNewDate sampleNow (Some sampleTv) sampleGuide)))) ! 1)
        < stop_time (programs (the (epg_db (fst (processEPGInChunks sampleNewDate sampleNow (Some sampleTv) sampleGuide)))) ! 1)"
  by code_simp

section \<open>Properties of the guide refresh and the guide queries\<close>

lemma readExternalFile_db: "epg_db (fst (readExternalFile env url s)) = epg_db s"
  by (cases url) (auto simp: readExternalFile_def Let_def split: sum.splits)

lemma readExternalFile_ok:
  "url \<noteq> UrlAbsent \<Longrightarrow> \<exists>urls. snd (readExternalFile env url s) = Inr urls"
  by (cases url) (auto simp: readExternalFile_def Let_def split: sum.splits)

lemma download_appends:
  assumes "epg_db s = Some d"
  shows "\<exists>d' added. epg_db (downloadAndProcessEPG env now u s) = Some d'
      \<and> programs d' = programs d @ added \<and> (\<forall>r\<in>set added. inWindow now r)"
proof (cases "fetchXml env (trim u)")
  case (Inl e)
  then show ?thesis using assms by (simp add: downloadAndProcessEPG_def)
next
  case (Inr x)
  show ?thesis
  proof (cases x)
    case None
    with Inr show ?thesis using assms by (simp add: downloadAndProcessEPG_def)
  next
    case (Some tv)
    have "epg_db (s\<lparr>fetchLog := fetchLog s @ [trim u]\<rparr>) = Some d"
      using assms by simp
    from processEPG_appends [OF this, of "newDate env" now "Some tv"] Inr Some
    show ?thesis by (simp add: downloadAndProcessEPG_def)
  qed
qed

lemma processUrls_start_bound:
  assumes "epg_db s = Some d"
    and "\<forall>r\<in>set (programs d). \<exists>i<k. start_time r \<le> ingestTime env i + sevenDays"
  shows "\<exists>d'. epg_db (processUrls env k us s) = Some d'
      \<and> (\<forall>r\<in>set (programs d'). \<exists>i<k + length us. start_time r \<le> ingestTime env i + sevenDays)"
  using assms
proof (induction us arbitrary: k s d)
  case Nil
  then show ?case by simp
next
  case (Cons u us)
  from download_appends [OF Cons.prems(1), of env "ingestTime env k" u] obtain d1 added where
    d1: "epg_db (downloadAndProcessEPG env (ingestTime env k) u s) = Some d1"
      "programs d1 = programs d @ added" "\<forall>r\<in>set added. inWindow (ingestTime env k) r"
    by blast
  have "\<forall>r\<in>set (programs d1). \<exists>i<Suc k. start_time r \<le> ingestTime env i + sevenDays"
  proof
    fix r assume "r \<in> set (programs d1)"
    then consider "r \<in> set (programs d)" | "r \<in> set added"
      using d1(2) by auto
    then show "\<exists>i<Suc k. start_time r \<le> ingestTime env i + sevenDays"
    proof cases
      case 1
      with Cons.prems(2) obtain i where "i < k" "start_time r \<le> ingestTime env i + sevenDays"
        by blast
      then show ?thesis by (intro exI [of _ i]) simp
    next
      case 2
      with d1(3) have "start_time r \<le> ingestTime env k + sevenDays"
        by (simp add: inWindow_def)
      then show ?thesis by (intro exI [of _ k]) simp
    qed
  qed
  from Cons.IH [OF d1(1) this] show ?case by simp
qed

lemma processUrls_all_fail:
  assumes "\<forall>u tv. fetchXml env u \<noteq> Inr (Some tv)"
  shows "epg_db (processUrls env k us s) = epg_db s"
proof (induction us arbitrary: k s)
  case Nil
  show ?case by simp
next
  case (Cons u us)
  have "epg_db (downloadAndProcessEPG env (ingestTime env k) u s) = epg_db s"
  proof (cases "fetchXml env (trim u)")
    case (Inl e)
    then show ?thesis by (simp add: downloadAndProcessEPG_def)
  next
    case (Inr x)
    with assms have "x = None" by (cases x) auto
    with Inr show ?thesis by (simp add: downloadAndProcessEPG_def)
  qed
  then show ?case using Cons.IH by simp
qed

lemma startEPGUpdate_flags:
  "\<not> isUpdating s \<Longrightarrow>
     lastUpdate (startEPGUpdate env url s) = Some (finishTime env)
     \<and> \<not> isUpdating (startEPGUpdate env url s)"
  by (simp add: startEPGUpdate_def split: prod.splits)

lemma startEPGUpdate_db:
  assumes "\<not> isUpdating s" "epg_db s = Some d" "url \<noteq> UrlAbsent"
  shows "\<exists>s1 urls d3. readExternalFile env url (s\<lparr>isUpdating := True\<rparr>) = (s1, Inr urls)
      \<and> epg_db (processUrls env 0 urls (s1\<lparr>epg_db := Some (d\<lparr>programs := [], channel_icons := Map.empty\<rparr>)\<rparr>)) = Some d3
      \<and> (\<forall>r\<in>set (programs d3). \<exists>i<length urls. start_time r \<le> ingestTime env i + sevenDays)
      \<and> epg_db (startEPGUpdate env url s)
         = Some (d3\<lparr>programs := filter (\<lambda>r. \<not> stop_time r < cleanupTime env - oneHour) (programs d3)\<rparr>)"
proof -
  obtain s1 r where rd: "readExternalFile env url (s\<lparr>isUpdating := True\<rparr>) = (s1, r)"
    by (cases "readExternalFile env url (s\<lparr>isUpdating := True\<rparr>)")
  from readExternalFile_ok [OF assms(3), of env "s\<lparr>isUpdating := True\<rparr>"] rd
  obtain urls where r: "r = Inr urls" by auto
  from readExternalFile_db [of env url "s\<lparr>isUpdating := True\<rparr>"] rd assms(2)
  have db1: "epg_db s1 = Some d" by simp
  let ?s2 = "s1\<lparr>epg_db := Some (d\<lparr>programs := [], channel_icons := Map.empty\<rparr>)\<rparr>"
  have "epg_db ?s2 = Some (d\<lparr>programs := [], channel_icons := Map.empty\<rparr>)" by simp
  from processUrls_start_bound [OF this, where k = 0 and env = env and us = urls]
  obtain d3 where d3: "epg_db (processUrls env 0 urls ?s2) = Some d3"
    and bound: "\<forall>r\<in>set (programs d3). \<exists>i<length urls. start_time r \<le> ingestTime env i + sevenDays"
    by auto
  have "epg_db (startEPGUpdate env url s)
         = Some (d3\<lparr>programs := filter (\<lambda>r. \<not> stop_time r < cleanupTime env - oneHour) (programs d3)\<rparr>)"
    using assms(1) rd r db1 d3
    by (simp add: startEPGUpdate_def updateBody_def cleanupOldPrograms_def Let_def epgSaveDatabase_def)
  with rd r d3 bound show ?thesis by blast
qed

lemma refresh_rows:
  assumes a: "\<not> isUpdating s" "epg_db s = Some d"
    and rd: "snd (readExternalFile env url (s\<lparr>isUpdating := True\<rparr>)) = Inr urls"
  shows "\<exists>d'. epg_db (startEPGUpdate env url s) = Some d'
      \<and> (\<forall>r\<in>set (programs d'). cleanupTime env - oneHour \<le> stop_time r
            \<and> (\<exists>i<length urls. start_time r \<le> ingestTime env i + sevenDays))"
proof -
  from rd have url: "url \<noteq> UrlAbsent"
    by (auto simp: readExternalFile_def)
  from startEPGUpdate_db [OF a url, of env] rd obtain d3 where
    d3: "\<forall>r\<in>set (programs d3). \<exists>i<length urls. start_time r \<le> ingestTime env i + sevenDays"
      "epg_db (startEPGUpdate env url s)
         = Some (d3\<lparr>programs := filter (\<lambda>r. \<not> stop_time r < cleanupTime env - oneHour) (programs d3)\<rparr>)"
    by auto
  then show ?thesis by auto
qed

text \<open>
  Claim C5, as the code has it. Each call of \<^verbatim>\<open>processEPGInChunks\<close> reads the clock once
  and only appends rows, each with its stop not before \<open>now - 1h\<close> and its start not
  after \<open>now + 7d\<close> for that reading; the rows already in the table are not looked at.
  So after a call on an empty table (the first source of a refresh) every stored row
  lies in the window of that call. After a whole refresh (not skipped, with a database,
  the URL list read) every stored row has its stop not before the cleanup's
  \<open>now - 1h\<close> and its start not after \<open>now + 7d\<close> for the reading of one of the
  sources; hence, for every instant \<open>T\<close> that is not before the reading of any source and
  not after the reading of the cleanup, no stored row has its stop before \<open>T - 1h\<close> or
  its start after \<open>T + 7d\<close>.
\<close>

theorem retention_window_bound:
  "(epg_db s = Some d \<longrightarrow>
      (\<exists>d' added. epg_db (fst (processEPGInChunks nd now tv s)) = Some d'
         \<and> programs d' = programs d @ added
         \<and> list_all (\<lambda>r. \<not> stop_time r < now - oneHour \<and> \<not> start_time r > now + sevenDays) added))
   \<and> (epg_db s = Some d \<and> programs d = [] \<longrightarrow>
      (\<exists>d'. epg_db (fst (processEPGInChunks nd now tv s)) = Some d'
         \<and> list_all (\<lambda>r. \<not> stop_time r < now - oneHour \<and> \<not> start_time r > now + sevenDays)
              (programs d')))
   \<and> (\<not> isUpdating s \<and> epg_db s = Some d
        \<and> snd (readExternalFile env url (s\<lparr>isUpdating := True\<rparr>)) = Inr urls \<longrightarrow>
      (\<exists>d'. epg_db (startEPGUpdate env url s) = Some d'
         \<and> list_all (\<lambda>r. \<not> stop_time r < cleanupTime env - oneHour
                        \<and> (\<exists>i<length urls. \<not> start_time r > ingestTime env i + sevenDays))
              (programs d')))
   \<and> (\<not> isUpdating s \<and> epg_db s = Some d
        \<and> snd (readExternalFile env url (s\<lparr>isUpdating := True\<rparr>)) = Inr urls
        \<and> (\<forall>i<length urls. ingestTime env i \<le> T) \<and> T \<le> cleanupTime env \<longrightarrow>
      (\<exists>d'. epg_db (startEPGUpdate env url s) = Some d'
         \<and> list_all (\<lambda>r. \<not> stop_time r < T - oneHour \<and> \<not> start_time r > T + sevenDays)
              (programs d')))"
proof (intro conjI impI)
  assume db: "epg_db s = Some d"
  from processEPG_appends [OF db, of nd now tv]
  show "\<exists>d' added. epg_db (fst (processEPGInChunks nd now tv s)) = Some d'
         \<and> programs d' = programs d @ added
         \<and> list_all (\<lambda>r. \<not> stop_time r < now - oneHour \<and> \<not> start_time r > now + sevenDays) added"
    by (fastforce simp: list_all_iff inWindow_def)
next
  assume "epg_db s = Some d \<and> programs d = []"
  then have db: "epg_db s = Some d" and empty: "programs d = []" by simp_all
  from processEPG_appends [OF db, of nd now tv] empty
  show "\<exists>d'. epg_db (fst (processEPGInChunks nd now tv s)) = Some d'
         \<and> list_all (\<lambda>r. \<not> stop_time r < now - oneHour \<and> \<not> start_time r > now + sevenDays)
              (programs d')"
    by (fastforce simp: list_all_iff inWindow_def)
next
  assume "\<not> isUpdating s \<and> epg_db s = Some d
        \<and> snd (readExternalFile env url (s\<lparr>isUpdating := True\<rparr>)) = Inr urls"
  then have a: "\<not> isUpdating s" "epg_db s = Some d"
    and rd: "snd (readExternalFile env url (s\<lparr>isUpdating := True\<rparr>)) = Inr urls"
    by simp_all
  from refresh_rows [OF a rd] obtain d' where
    d': "epg_db (startEPGUpdate env url s) = Some d'"
      "\<forall>r\<in>set (programs d'). cleanupTime env - oneHour \<le> stop_time r
            \<and> (\<exists>i<length urls. start_time r \<le> ingestTime env i + sevenDays)"
    by blast
  have "list_all (\<lambda>r. \<not> stop_time r < cleanupTime env - oneHour
                        \<and> (\<exists>i<length urls. \<not> start_time r > ingestTime env i + sevenDays))
          (programs d')"
    unfolding list_all_iff
  proof
    fix r assume "r \<in> set (programs d')"
    with d'(2) obtain i where "cleanupTime env - oneHour \<le> stop_time r" "i < length urls"
      "start_time r \<le> ingestTime env i + sevenDays"
      by blast
    then show "\<not> stop_time r < cleanupTime env - oneHour
                        \<and> (\<exists>i<length urls. \<not> start_time r > ingestTime env i + sevenDays)"
      by (auto simp: not_less)
  qed
  with d'(1) show "\<exists>d'. epg_db (startEPGUpdate env url s) = Some d'
         \<and> list_all (\<lambda>r. \<not> stop_time r < cleanupTime env - oneHour
                        \<and> (\<exists>i<length urls. \<not> start_time r > ingestTime env i + sevenDays))
              (programs d')"
    by blast
next
  assume "\<not> isUpdating s \<and> epg_db s = Some d
        \<and> snd (readExternalFile env url (s\<lparr>isUpdating := True\<rparr>)) = Inr urls
        \<and> (\<forall>i<length urls. ingestTime env i \<le> T) \<and> T \<le> cleanupTime env"
  then have a: "\<not> isUpdating s" "epg_db s = Some d"
    and rd: "snd (readExternalFile env url (s\<lparr>isUpdating := True\<rparr>)) = Inr urls"
    and before: "\<forall>i<length urls. ingestTime env i \<le> T" and after: "T \<le> cleanupTime env"
    by simp_all
  from refresh_rows [OF a rd] obtain d' where
    d': "epg_db (startEPGUpdate env url s) = Some d'"
      "\<forall>r\<in>set (programs d'). cleanupTime env - oneHour \<le> stop_time r
            \<and> (\<exists>i<length urls. start_time r \<le> ingestTime env i + sevenDays)"
    by blast
  have "list_all (\<lambda>r. \<not> stop_time r < T - oneHour \<and> \<not> start_time r > T + sevenDays) (programs d')"
    unfolding list_all_iff
  proof
    fix r assume "r \<in> set (programs d')"
    with d'(2) obtain i where r: "cleanupTime env - oneHour \<le> stop_time r" "i < length urls"
      "start_time r \<le> ingestTime env i + sevenDays"
      by blast
    from before r(2) have "ingestTime env i \<le> T" by simp
    with r(1,3) after show "\<not> stop_time r < T - oneHour \<and> \<not> start_time r > T + sevenDays"
      by simp
  qed
  with d'(1) show "\<exists>d'. epg_db (startEPGUpdate env url s) = Some d'
         \<and> list_all (\<lambda>r. \<not> stop_time r < T - oneHour \<and> \<not> start_time r > T + sevenDays)
              (programs d')"
    by blast
qed

theorem retention_window_bound_witness:
  "list_all (\<lambda>r. \<not> stop_time r < sampleNow - oneHour \<and> \<not> start_time r > sampleNow + sevenDays)
        (programs (the (epg_db (fst (processEPGInChunks sampleNewDate sampleNow (Some sampleTv) sampleGuide)))))
   \<and> length (programs (the (epg_db (fst (processEPGInChunks sampleNewDate sampleNow (Some sampleTv) sampleGuide))))) = 3
   \<and> list_all (\<lambda>r. \<not> stop_time r < sampleSecondReading - oneHour
                  \<and> \<not> start_time r > sampleSecondReading + sevenDays)
        (programs (the (epg_db (startEPGUpdate sampleTwoSourceEnv
            (UrlString ''http://example.org/early.xml,http://example.org/guide.xml'') sampleGuide))))
   \<and> length (programs (the (epg_db (startEPGUpdate sampleTwoSourceEnv
            (UrlString ''http://example.org/early.xml,http://example.org/guide.xml'') sampleGuide)))) = 3"
proof -
  let ?d = "\<lparr>programs = [], channel_icons = Map.empty\<rparr>"
  let ?url = "UrlString ''http://example.org/early.xml,http://example.org/guide.xml''"
  let ?urls = "[''http://example.org/early.xml'', ''http://example.org/guide.xml'']"
  have db: "epg_db sampleGuide = Some ?d" "programs ?d = []" "\<not> isUpdating sampleGuide"
    by (simp_all add: sampleGuide_def)
  have rd: "snd (readExternalFile sampleTwoSourceEnv ?url (sampleGuide\<lparr>isUpdating := True\<rparr>)) = Inr ?urls"
    by code_simp
  have clock: "\<forall>i<length ?urls. ingestTime sampleTwoSourceEnv i \<le> sampleSecondReading"
    "sampleSecondReading \<le> cleanupTime sampleTwoSourceEnv"
    by (simp_all add: sampleTwoSourceEnv_def sampleFirstReading_def sampleSecondReading_def)
  have n: "length (programs (the (epg_db (fst (processEPGInChunks sampleNewDate sampleNow (Some sampleTv) sampleGuide))))) = 3"
    "length (programs (the (epg_db (startEPGUpdate sampleTwoSourceEnv ?url sampleGuide)))) = 3"
    by code_simp+
  note w = retention_window_bound [of sampleGuide ?d sampleNewDate sampleNow "Some sampleTv"
      sampleTwoSourceEnv ?url ?urls sampleSecondReading]
  from w db obtain d' where
    "epg_db (fst (processEPGInChunks sampleNewDate sampleNow (Some sampleTv) sampleGuide)) = Some d'"
    "list_all (\<lambda>r. \<not> stop_time r < sampleNow - oneHour \<and> \<not> start_time r > sampleNow + sevenDays)
        (programs d')"
    by blast
  moreover from w db rd clock obtain d'' where
    "epg_db (startEPGUpdate sampleTwoSourceEnv ?url sampleGuide) = Some d''"
    "list_all (\<lambda>r. \<not> stop_time r < sampleSecondReading - oneHour
                  \<and> \<not> start_time r > sampleSecondReading + sevenDays)
        (programs d'')"
    by blast
  ultimately show ?thesis using n by simp
qed

text \<open>
  Claim C5 as stated fails for a refresh with two sources. The first document is ingested
  at 11:00:00 and its programme, ending at 10:00:00, is kept; the second document is
  ingested one second later, and when that ingestion has completed the table still holds
  the programme of the first, whose stop is now before \<open>now - 1h\<close>. This is the table
  the loop over the URLs of \<^verbatim>\<open>startEPGUpdate\<close> leaves behind for the cleanup.
\<close>

theorem retention_second_source_counterexample:
  "programs (the (epg_db (fst (processEPGInChunks sampleNewDate sampleSecondReading (Some sampleTv)
      (fst (processEPGInChunks sampleNewDate sampleFirstReading (Some sampleEarlyTv) sampleGuide)))))) ! 0
     = \<lparr>channel_id = ''rai1'', start_time = 1767254400000, stop_time = 1767261600000,
        title = ''Morning'', description = [], category = []\<rparr>
   \<and> stop_time (programs (the (epg_db (fst (processEPGInChunks sampleNewDate sampleSecondReading (Some sampleTv)
      (fst (processEPGInChunks sampleNewDate sampleFirstReading (Some sampleEarlyTv) sampleGuide)))))) ! 0)
       < sampleSecondReading - oneHour
   \<and> programs (the (epg_db (processUrls sampleTwoSourceEnv 0
        [''http://example.org/early.xml'', ''http://example.org/guide.xml''] sampleGuide))) ! 0
     = \<lparr>channel_id = ''rai1'', start_time = 1767254400000, stop_time = 1767261600000,
        title = ''Morning'', description = [], category = []\<rparr>"
  by code_simp

text \<open>
  Claim C10. Every call of \<^verbatim>\<open>startEPGUpdate\<close> that passes the guard ends with
  \<^verbatim>\<open>isUpdating\<close> cleared and \<^verbatim>\<open>lastUpdate\<close> set to the clock reading of the
  \<^verbatim>\<open>finally\<close> block, whatever happened in between; unless that reading is 0,
  \<^verbatim>\<open>needsUpdate\<close> is then false at every time less than 24 hours later. This holds in
  particular when every download or parse fails, where both tables were cleared and
  stay empty, and when reading the URL list throws, where the tables are as before.
\<close>

theorem refresh_sets_lastUpdate:
  "(\<not> isUpdating s \<longrightarrow>
      lastUpdate (startEPGUpdate env url s) = Some (finishTime env)
      \<and> \<not> isUpdating (startEPGUpdate env url s)
      \<and> (finishTime env \<noteq> 0 \<longrightarrow>
           (\<forall>now. now - finishTime env < oneDay \<longrightarrow> \<not> needsUpdate now (startEPGUpdate env url s))))
   \<and> (\<not> isUpdating s \<and> epg_db s = Some d \<and> url \<noteq> UrlAbsent
        \<and> (\<forall>u tv. fetchXml env u \<noteq> Inr (Some tv)) \<longrightarrow>
      epg_db (startEPGUpdate env url s) = Some (d\<lparr>programs := [], channel_icons := Map.empty\<rparr>)
      \<and> lastUpdate (startEPGUpdate env url s) = Some (finishTime env))
   \<and> (\<not> isUpdating s \<and> url = UrlAbsent \<longrightarrow>
      epg_db (startEPGUpdate env url s) = epg_db s
      \<and> lastUpdate (startEPGUpdate env url s) = Some (finishTime env))"
proof (intro conjI impI allI)
  assume idle: "\<not> isUpdating s"
  show "lastUpdate (startEPGUpdate env url s) = Some (finishTime env)"
    and "\<not> isUpdating (startEPGUpdate env url s)"
    using startEPGUpdate_flags [OF idle] by simp_all
next
  fix now
  assume idle: "\<not> isUpdating s" and nz: "finishTime env \<noteq> 0" and lt: "now - finishTime env < oneDay"
  from startEPGUpdate_flags [OF idle, of env url] nz lt
  show "\<not> needsUpdate now (startEPGUpdate env url s)"
    by (simp add: needsUpdate_def)
next
  assume a: "\<not> isUpdating s \<and> epg_db s = Some d \<and> url \<noteq> UrlAbsent
        \<and> (\<forall>u tv. fetchXml env u \<noteq> Inr (Some tv))"
  then have idle: "\<not> isUpdating s" and db: "epg_db s = Some d" and url: "url \<noteq> UrlAbsent"
    and fail: "\<forall>u tv. fetchXml env u \<noteq> Inr (Some tv)" by simp_all
  from startEPGUpdate_db [OF idle db url, of env] obtain s1 urls d3 where
    d3: "epg_db (processUrls env 0 urls (s1\<lparr>epg_db := Some (d\<lparr>programs := [], channel_icons := Map.empty\<rparr>)\<rparr>)) = Some d3"
      "epg_db (startEPGUpdate env url s)
         = Some (d3\<lparr>programs := filter (\<lambda>r. \<not> stop_time r < cleanupTime env - oneHour) (programs d3)\<rparr>)"
    by blast
  from d3(1) processUrls_all_fail [OF fail]
  have "d3 = d\<lparr>programs := [], channel_icons := Map.empty\<rparr>" by simp
  with d3(2) show "epg_db (startEPGUpdate env url s) = Some (d\<lparr>programs := [], channel_icons := Map.empty\<rparr>)"
    by simp
  show "lastUpdate (startEPGUpdate env url s) = Some (finishTime env)"
    using startEPGUpdate_flags [OF idle] by simp
next
  assume a: "\<not> isUpdating s \<and> url = UrlAbsent"
  then show "epg_db (startEPGUpdate env url s) = epg_db s"
    by (simp add: startEPGUpdate_def updateBody_def readExternalFile_def)
  from a show "lastUpdate (startEPGUpdate env url s) = Some (finishTime env)"
    using startEPGUpdate_flags by simp
qed

theorem refresh_sets_lastUpdate_witness:
  "\<not> isUpdating sampleGuide \<and> finishTime sampleEnv \<noteq> 0
   \<and> lastUpdate (startEPGUpdate sampleEnv (UrlString ''http://example.org/none.xml'') sampleGuide)
       = Some sampleNow
   \<and> \<not> needsUpdate (sampleNow + 86399999)
         (startEPGUpdate sampleEnv (UrlString ''http://example.org/none.xml'') sampleGuide)
   \<and> programs (the (epg_db (startEPGUpdate sampleEnv (UrlString ''http://example.org/none.xml'') sampleGuide)))
       = []"
proof -
  have idle: "\<not> isUpdating sampleGuide"
    by (simp add: sampleGuide_def)
  have fin: "finishTime sampleEnv = sampleNow" "finishTime sampleEnv \<noteq> 0"
    by (simp_all add: sampleEnv_def sampleNow_def)
  have lt: "(sampleNow + 86399999) - finishTime sampleEnv < oneDay"
    by (simp add: fin oneDay_def)
  have e: "programs (the (epg_db (startEPGUpdate sampleEnv (UrlString ''http://example.org/none.xml'') sampleGuide))) = []"
    by code_simp
  from refresh_sets_lastUpdate [of sampleGuide sampleEnv "UrlString ''http://example.org/none.xml''"
      "\<lparr>programs = [], channel_icons = Map.empty\<rparr>"] idle fin lt
  have "lastUpdate (startEPGUpdate sampleEnv (UrlString ''http://example.org/none.xml'') sampleGuide)
       = Some sampleNow"
    and "\<not> needsUpdate (sampleNow + 86399999)
         (startEPGUpdate sampleEnv (UrlString ''http://example.org/none.xml'') sampleGuide)"
    by simp_all
  then show ?thesis using idle fin e by simp
qed

text \<open>
  Claim C9, as the code has it. \<^verbatim>\<open>needsUpdate\<close> is true exactly when \<^verbatim>\<open>lastUpdate\<close> is
  \<^verbatim>\<open>null\<close> or 0, or at least 24 hours (86400000 ms) have passed since it; the comparison
  is \<^verbatim>\<open>>=\<close>, so at exactly 24 hours the answer is true.
\<close>

theorem needsUpdate_threshold:
  "needsUpdate now s \<longleftrightarrow>
     lastUpdate s = None \<or> lastUpdate s = Some 0
     \<or> (\<exists>t. lastUpdate s = Some t \<and> 24 * 60 * 60 * 1000 \<le> now - t)"
  by (auto simp: needsUpdate_def oneDay_def split: option.splits)

theorem needsUpdate_threshold_witness:
  "needsUpdate 86401000 (sampleGuide\<lparr>lastUpdate := Some 1000\<rparr>)
   \<and> \<not> needsUpdate 86400999 (sampleGuide\<lparr>lastUpdate := Some 1000\<rparr>)
   \<and> needsUpdate 5 sampleGuide"
  using needsUpdate_threshold [of 86401000 "sampleGuide\<lparr>lastUpdate := Some 1000\<rparr>"]
    needsUpdate_threshold [of 86400999 "sampleGuide\<lparr>lastUpdate := Some 1000\<rparr>"]
    needsUpdate_threshold [of 5 sampleGuide]
  by (simp add: sampleGuide_def)

text \<open>
  Claim C9 as stated fails: with the last update at 10:15 on 1 January 2026 and the
  clock exactly 24 hours later, \<^verbatim>\<open>needsUpdate\<close> answers true.
\<close>

theorem needsUpdate_exactly_24h_counterexample:
  "needsUpdate (1767262500000 + 86400000) (sampleGuide\<lparr>lastUpdate := Some 1767262500000\<rparr>)
   \<and> (1767262500000 + 86400000) - 1767262500000 = (24 * 60 * 60 * 1000 :: int)"
  by (simp add: needsUpdate_def oneDay_def)

lemma set_indexScan: "set (indexScan c rows) = {r \<in> set rows. channel_id r = c}"
  by (auto simp: indexScan_def)

lemma sorted_indexScan: "sorted (map start_time (indexScan c rows))"
  by (simp add: indexScan_def)

text \<open>
  Claim C6, as the code has it. For an absent or empty id, and without a database,
  \<^verbatim>\<open>getCurrentProgram\<close> returns \<^verbatim>\<open>null\<close> whatever is stored. For a non-empty id it
  returns \<^verbatim>\<open>null\<close> exactly when no stored program of the normalized id has
  \<open>start \<le> now \<le> stop\<close>, and otherwise the view (texts and formatted times) of one
  stored program of the normalized id with \<open>start \<le> now \<le> stop\<close>.
\<close>

theorem getCurrentProgram_contains_now:
  "(\<not> truthy i \<or> epg_db s = None \<longrightarrow> getCurrentProgram env now i s = None)
   \<and> (truthy i \<and> epg_db s = Some d \<longrightarrow>
        (getCurrentProgram env now i s = None \<longleftrightarrow>
           \<not> (\<exists>r\<in>set (programs d). channel_id r = normalizeId i \<and> start_time r \<le> now \<and> now \<le> stop_time r))
        \<and> (\<forall>v. getCurrentProgram env now i s = Some v \<longrightarrow>
             (\<exists>r\<in>set (programs d). v = viewOf env s r \<and> channel_id r = normalizeId i
                 \<and> start_time r \<le> now \<and> now \<le> stop_time r)))"
proof (intro conjI impI allI)
  assume "\<not> truthy i \<or> epg_db s = None"
  then show "getCurrentProgram env now i s = None"
    by (auto simp: getCurrentProgram_def)
next
  let ?rows = "filter (\<lambda>r. start_time r \<le> now \<and> stop_time r \<ge> now)
      (indexScan (normalizeId i) (programs d))"
  assume a: "truthy i \<and> epg_db s = Some d"
  then have g: "getCurrentProgram env now i s =
      (case ?rows of [] \<Rightarrow> None | row # _ \<Rightarrow> Some (viewOf env s row))"
    by (cases ?rows) (simp_all add: getCurrentProgram_def selectCurrent_def)
  have mem: "r \<in> set ?rows \<longleftrightarrow>
      r \<in> set (programs d) \<and> channel_id r = normalizeId i \<and> start_time r \<le> now \<and> now \<le> stop_time r"
    for r
    by (auto simp: set_indexScan)
  show "getCurrentProgram env now i s = None \<longleftrightarrow>
           \<not> (\<exists>r\<in>set (programs d). channel_id r = normalizeId i \<and> start_time r \<le> now \<and> now \<le> stop_time r)"
  proof (cases ?rows)
    case Nil
    then have "\<forall>r. r \<notin> set ?rows" by simp
    then have "\<not> (\<exists>r\<in>set (programs d). channel_id r = normalizeId i \<and> start_time r \<le> now \<and> now \<le> stop_time r)"
      unfolding mem by blast
    then show ?thesis unfolding g using Nil by simp
  next
    case (Cons row rest)
    then have "row \<in> set ?rows" by simp
    then have "\<exists>r\<in>set (programs d). channel_id r = normalizeId i \<and> start_time r \<le> now \<and> now \<le> stop_time r"
      unfolding mem by blast
    then show ?thesis unfolding g using Cons by simp
  qed
  fix v
  assume "getCurrentProgram env now i s = Some v"
  then obtain row rest where f: "?rows = row # rest" and v: "v = viewOf env s row"
    unfolding g by (auto split: list.splits)
  from f have "row \<in> set ?rows" by simp
  then have "row \<in> set (programs d)" "channel_id row = normalizeId i"
    "start_time row \<le> now" "now \<le> stop_time row"
    unfolding mem by simp_all
  with v show "\<exists>r\<in>set (programs d). v = viewOf env s r \<and> channel_id r = normalizeId i
                 \<and> start_time r \<le> now \<and> now \<le> stop_time r"
    by blast
qed

theorem getCurrentProgram_contains_now_witness:
  "truthy (Some ''RAI 1'')
   \<and> getCurrentProgram sampleEnv sampleNow (Some ''RAI 1'')
        (fst (processEPGInChunks sampleNewDate sampleNow (Some sampleTv) sampleGuide)) \<noteq> None
   \<and> getCurrentProgram sampleEnv (sampleNow + 7200000) (Some ''RAI 1'')
        (fst (processEPGInChunks sampleNewDate sampleNow (Some sampleTv) sampleGuide)) = None
   \<and> getCurrentProgram sampleEnv sampleNow None
        (fst (processEPGInChunks sampleNewDate sampleNow (Some sampleTv) sampleGuide)) = None
   \<and> map_option v_title (getCurrentProgram sampleEnv sampleNow (Some ''RAI 1'')
        (fst (processEPGInChunks sampleNewDate sampleNow (Some sampleOverlapTv) sampleGuide)))
       = Some ''Long''"
proof -
  let ?G = "fst (processEPGInChunks sampleNewDate sampleNow (Some sampleTv) sampleGuide)"
  have first: "map_option v_title (getCurrentProgram sampleEnv sampleNow (Some ''RAI 1'')
        (fst (processEPGInChunks sampleNewDate sampleNow (Some sampleOverlapTv) sampleGuide)))
       = Some ''Long''"
    by code_simp
  have t: "truthy (Some ''RAI 1'')" "\<not> truthy None"
    by (simp_all add: truthy_def)
  have "epg_db ?G \<noteq> None"
    by code_simp
  then have db: "epg_db ?G = Some (the (epg_db ?G))"
    by simp
  have now: "\<exists>r\<in>set (programs (the (epg_db ?G))). channel_id r = normalizeId (Some ''RAI 1'')
      \<and> start_time r \<le> sampleNow \<and> sampleNow \<le> stop_time r"
    by code_simp
  have later: "\<not> (\<exists>r\<in>set (programs (the (epg_db ?G))). channel_id r = normalizeId (Some ''RAI 1'')
      \<and> start_time r \<le> sampleNow + 7200000 \<and> sampleNow + 7200000 \<le> stop_time r)"
    by code_simp
  from getCurrentProgram_contains_now [of "Some ''RAI 1''" ?G sampleEnv sampleNow "the (epg_db ?G)"]
    t(1) db now
  have a: "getCurrentProgram sampleEnv sampleNow (Some ''RAI 1'') ?G \<noteq> None"
    by blast
  from getCurrentProgram_contains_now [of "Some ''RAI 1''" ?G sampleEnv "sampleNow + 7200000"
      "the (epg_db ?G)"] t(1) db later
  have b: "getCurrentProgram sampleEnv (sampleNow + 7200000) (Some ''RAI 1'') ?G = None"
    by blast
  from getCurrentProgram_contains_now [of None ?G sampleEnv sampleNow "the (epg_db ?G)"] t(2)
  have c: "getCurrentProgram sampleEnv sampleNow None ?G = None"
    by blast
  show ?thesis
    using t(1) a b c first by simp
qed

text \<open>
  Claim C6 as stated fails at the empty id: a programme whose channel attribute is
  \<^verbatim>\<open>***\<close> is stored under the normalized id \<^verbatim>\<open>''\<close>, which is also the normalized form
  of the empty id; at 10:15 its interval contains \<open>now\<close>, yet \<^verbatim>\<open>getCurrentProgram('')\<close>
  returns \<^verbatim>\<open>null\<close>, while \<^verbatim>\<open>getCurrentProgram('#')\<close>, with the same normalized id,
  returns the program.
\<close>

theorem getCurrentProgram_empty_id_counterexample:
  "programs (the (epg_db (fst (processEPGInChunks sampleNewDate sampleNow (Some sampleUnnamedTv) sampleGuide))))
     = [\<lparr>channel_id = [], start_time = 1767261600000, stop_time = 1767265200000,
         title = ''Test card'', description = [], category = []\<rparr>]
   \<and> normalizeId (Some []) = []
   \<and> 1767261600000 \<le> sampleNow \<and> sampleNow \<le> 1767265200000
   \<and> getCurrentProgram sampleEnv sampleNow (Some [])
        (fst (processEPGInChunks sampleNewDate sampleNow (Some sampleUnnamedTv) sampleGuide)) = None
   \<and> getCurrentProgram sampleEnv sampleNow (Some ''#'')
        (fst (processEPGInChunks sampleNewDate sampleNow (Some sampleUnnamedTv) sampleGuide))
       = Some \<lparr>v_title = ''Test card'', v_description = [], v_category = [],
               v_start = ''00:00'', v_stop = ''00:00''\<rparr>"
  by code_simp

text \<open>
  Claim C7. \<^verbatim>\<open>getUpcomingPrograms\<close> returns at most two entries; they are the views of
  stored rows of the normalized id whose start is not before \<open>now\<close>, in ascending order
  of start.
\<close>

theorem getUpcomingPrograms_bounded:
  "length (getUpcomingPrograms env now i s) \<le> 2
   \<and> (\<exists>rows. getUpcomingPrograms env now i s = map (viewOf env s) rows
        \<and> length rows \<le> 2
        \<and> sorted (map start_time rows)
        \<and> list_all (\<lambda>r. now \<le> start_time r \<and> channel_id r = normalizeId i) rows
        \<and> set rows \<subseteq> (case epg_db s of None \<Rightarrow> {} | Some d \<Rightarrow> set (programs d)))"
proof (cases "\<not> truthy i \<or> epg_db s = None")
  case True
  then have "getUpcomingPrograms env now i s = []"
    by (auto simp: getUpcomingPrograms_def)
  then show ?thesis by simp
next
  case False
  then obtain d where d: "epg_db s = Some d" and t: "truthy i" by auto
  let ?rows = "selectUpcoming (normalizeId i) now (programs d)"
  have g: "getUpcomingPrograms env now i s = map (viewOf env s) ?rows"
    using d t by (simp add: getUpcomingPrograms_def)
  have len: "length ?rows \<le> 2"
    by (simp add: selectUpcoming_def)
  have srt: "sorted (map start_time ?rows)"
    unfolding selectUpcoming_def take_map [symmetric]
    by (rule sorted_wrt_take) (rule sorted_filter, rule sorted_indexScan)
  have sub: "set ?rows \<subseteq> set (filter (\<lambda>r. channel_id r = normalizeId i \<and> start_time r \<ge> now) (programs d))"
    unfolding selectUpcoming_def using set_take_subset [of 2] by (fastforce simp: set_indexScan)
  then have all: "list_all (\<lambda>r. now \<le> start_time r \<and> channel_id r = normalizeId i) ?rows"
    by (auto simp: list_all_iff)
  from sub have "set ?rows \<subseteq> set (programs d)" by auto
  with g len srt all d show ?thesis
    by (intro conjI exI [of _ ?rows]) simp_all
qed

theorem getUpcomingPrograms_bounded_witness:
  "length (getUpcomingPrograms sampleEnv sampleNow (Some ''RAI 1'')
      (fst (processEPGInChunks sampleNewDate sampleNow (Some sampleTv) sampleGuide))) \<le> 2
   \<and> map v_title (getUpcomingPrograms sampleEnv sampleNow (Some ''RAI 1'')
      (fst (processEPGInChunks sampleNewDate sampleNow (Some sampleTv) sampleGuide)))
     = [''Film'', ''Inverted'']
   \<and> map v_title (getUpcomingPrograms sampleEnv sampleNow (Some ''RAI 1'')
      (fst (processEPGInChunks sampleNewDate sampleNow (Some sampleTiesTv) sampleGuide)))
     = [''C'', ''A'']"
proof -
  have "map v_title (getUpcomingPrograms sampleEnv sampleNow (Some ''RAI 1'')
      (fst (processEPGInChunks sampleNewDate sampleNow (Some sampleTv) sampleGuide)))
     = [''Film'', ''Inverted'']"
    "map v_title (getUpcomingPrograms sampleEnv sampleNow (Some ''RAI 1'')
      (fst (processEPGInChunks sampleNewDate sampleNow (Some sampleTiesTv) sampleGuide)))
     = [''C'', ''A'']"
    by code_simp+
  then show ?thesis
    using getUpcomingPrograms_bounded [of sampleEnv sampleNow "Some ''RAI 1''"
        "fst (processEPGInChunks sampleNewDate sampleNow (Some sampleTv) sampleGuide)"]
    by simp
qed

end
